theory Spec2Isabelle
  imports Complex_Main
begin

section \<open>Data model (auth/config.go, auth/token_manager.go, package types)\<close>

text \<open>
  \<^verbatim>\<open>AuthConfig\<close> of auth/config.go, field by field.
\<close>

record AuthConfig =
  AuthType :: string
  RefreshToken :: string
  ClientID :: string
  ClientSecret :: string
  Disabled :: bool

definition AuthMethodSocial :: string where
  "AuthMethodSocial = ''Social''"

definition AuthMethodIdC :: string where
  "AuthMethodIdC = ''IdC''"

text \<open>
  \<^verbatim>\<open>types.TokenInfo\<close>, declared in package types: the token manager reads
  \<^verbatim>\<open>ExpiresAt\<close> only and passes the rest on. Instants of \<^verbatim>\<open>time.Time\<close>
  are integers (ticks of one fixed clock), durations their differences.
\<close>

record TokenInfo =
  AccessToken :: string
  ExpiresAt :: int

section \<open>\<^verbatim>\<open>float64\<close>\<close>

text \<open>
  The quota amounts and the remaining-available count are \<^verbatim>\<open>float64\<close>: IEEE 754
  binary64 with the two infinities and NaN, every operation rounded to nearest, ties to
  even. A finite value is the rational it denotes. The two zeros are one value here: the
  program only adds, subtracts and compares these numbers, and no comparison tells the
  zeros apart.

  \<open>exponent2 r\<close> is the integer \<open>e\<close> with \<open>2^e \<le> |r| < 2^(e+1)\<close>; a binary64 number of
  that magnitude is a multiple of \<open>2^(e-52)\<close>, or of \<open>2^(-1074)\<close> in the subnormal range;
  a rounded magnitude of \<open>2^1024\<close> or more is an infinity.
\<close>

datatype float64 = Finite rat | PosInf | NegInf | NaN

fun bit_length :: "nat \<Rightarrow> nat" where
  "bit_length n = (if n = 0 then 0 else Suc (bit_length (n div 2)))"

declare bit_length.simps [simp del]

definition exponent2 :: "rat \<Rightarrow> int" where
  "exponent2 r =
     (let (p, q) = quotient_of \<bar>r\<bar>;
          k = int (bit_length (nat p)) - int (bit_length (nat q))
      in if 2 powi k \<le> \<bar>r\<bar> then k else k - 1)"

definition round_half_even :: "rat \<Rightarrow> int" where
  "round_half_even x =
     (let f = \<lfloor>x\<rfloor>; d = x - of_int f
      in if d < 1 / 2 then f else if 1 / 2 < d then f + 1 else if even f then f else f + 1)"

definition round64 :: "rat \<Rightarrow> float64" where
  "round64 r =
     (if r = 0 then Finite 0
      else
        let quantum = 2 powi (max (exponent2 r) (- 1022) - 52);
            v = of_int (round_half_even (r / quantum)) * quantum
        in if 2 powi 1024 \<le> v then PosInf
           else if v \<le> - (2 powi 1024) then NegInf
           else Finite v)"

fun f64_neg :: "float64 \<Rightarrow> float64" where
  "f64_neg (Finite a) = Finite (- a)"
| "f64_neg PosInf = NegInf"
| "f64_neg NegInf = PosInf"
| "f64_neg NaN = NaN"

fun f64_add :: "float64 \<Rightarrow> float64 \<Rightarrow> float64" where
  "f64_add NaN y = NaN"
| "f64_add x NaN = NaN"
| "f64_add PosInf NegInf = NaN"
| "f64_add NegInf PosInf = NaN"
| "f64_add PosInf y = PosInf"
| "f64_add x PosInf = PosInf"
| "f64_add NegInf y = NegInf"
| "f64_add x NegInf = NegInf"
| "f64_add (Finite a) (Finite b) = round64 (a + b)"

definition f64_sub :: "float64 \<Rightarrow> float64 \<Rightarrow> float64" where
  "f64_sub x y = f64_add x (f64_neg y)"

text \<open>\<open>x < y\<close> and \<open>x \<le> y\<close> on \<^verbatim>\<open>float64\<close>: false whenever an operand is NaN.\<close>

fun f64_less :: "float64 \<Rightarrow> float64 \<Rightarrow> bool" where
  "f64_less NaN y = False"
| "f64_less x NaN = False"
| "f64_less PosInf y = False"
| "f64_less x NegInf = False"
| "f64_less NegInf y = True"
| "f64_less x PosInf = True"
| "f64_less (Finite a) (Finite b) = (a < b)"

fun f64_le :: "float64 \<Rightarrow> float64 \<Rightarrow> bool" where
  "f64_le NaN y = False"
| "f64_le x NaN = False"
| "f64_le NegInf y = True"
| "f64_le x PosInf = True"
| "f64_le PosInf y = False"
| "f64_le x NegInf = False"
| "f64_le (Finite a) (Finite b) = (a \<le> b)"

section \<open>Quota snapshots and cache entries (package types, auth/token_manager.go)\<close>

text \<open>
  \<^verbatim>\<open>types.UsageLimits\<close> with the fields \<^verbatim>\<open>CalculateAvailableCount\<close> reads.
  \<^verbatim>\<open>FreeTrialInfo\<close> is a pointer, \<open>None\<close> is nil.
\<close>

record FreeTrialInfo =
  FreeTrialStatus :: string
  FT_UsageLimitWithPrecision :: float64
  FT_CurrentUsageWithPrecision :: float64

record UsageBreakdown =
  ResourceType :: string
  FreeTrial :: "FreeTrialInfo option"
  UsageLimitWithPrecision :: float64
  CurrentUsageWithPrecision :: float64

record UsageLimits =
  UsageBreakdownList :: "UsageBreakdown list"

text \<open>\<^verbatim>\<open>CachedToken\<close> of auth/token_manager.go.\<close>

record CachedToken =
  Token :: TokenInfo
  UsageInfo :: "UsageLimits option"
  CachedAt :: int
  LastUsed :: int
  Available :: float64

section \<open>Cache keys: \<^verbatim>\<open>fmt.Sprintf(config.TokenCacheKeyFormat, i)\<close>\<close>

text \<open>
  The format is \<^verbatim>\<open>"token_%d"\<close> (config/constants.go, as listed in the config module's
  README). \<open>decimal\<close> is the \<^verbatim>\<open>%d\<close> rendering of a natural number.
\<close>

definition digit_char :: "nat \<Rightarrow> char" where
  "digit_char d = ''0123456789'' ! d"

fun decimal :: "nat \<Rightarrow> string" where
  "decimal n = (if n < 10 then [digit_char n] else decimal (n div 10) @ [digit_char (n mod 10)])"

declare decimal.simps [simp del]

definition TokenCacheKeyFormat :: "int \<Rightarrow> string" where
  "TokenCacheKeyFormat i =
     ''token_'' @ (if i < 0 then CHR ''-'' # decimal (nat (- i)) else decimal (nat i))"

section \<open>Quota accounting\<close>

text \<open>
  \<^verbatim>\<open>CalculateAvailableCount\<close>: the loop over \<^verbatim>\<open>usage.UsageBreakdownList\<close> returns at the
  first breakdown whose resource type is \<^verbatim>\<open>CREDIT\<close>. \<^verbatim>\<open>totalAvailable\<close> starts as
  the zero value and is added to twice at most.
\<close>

fun CalculateAvailableCount_loop :: "UsageBreakdown list \<Rightarrow> float64" where
  "CalculateAvailableCount_loop [] = Finite 0"
| "CalculateAvailableCount_loop (breakdown # rest) =
     (if ResourceType breakdown = ''CREDIT'' then
        (let totalAvailable0 = Finite 0;
             totalAvailable1 =
               (case FreeTrial breakdown of
                  Some ft \<Rightarrow>
                    if FreeTrialStatus ft = ''ACTIVE''
                    then f64_add totalAvailable0
                           (f64_sub (FT_UsageLimitWithPrecision ft) (FT_CurrentUsageWithPrecision ft))
                    else totalAvailable0
                | None \<Rightarrow> totalAvailable0);
             baseAvailable =
               f64_sub (UsageLimitWithPrecision breakdown) (CurrentUsageWithPrecision breakdown);
             totalAvailable = f64_add totalAvailable1 baseAvailable
         in if f64_less totalAvailable (Finite 0) then Finite 0 else totalAvailable)
      else CalculateAvailableCount_loop rest)"

definition CalculateAvailableCount :: "UsageLimits \<Rightarrow> float64" where
  "CalculateAvailableCount usage = CalculateAvailableCount_loop (UsageBreakdownList usage)"

text \<open>
  The contract of \<open>computeAvailable\<close> in the words of the specification, the sums being
  those of \<^verbatim>\<open>float64\<close>.
\<close>

definition trial_remaining :: "UsageBreakdown \<Rightarrow> float64" where
  "trial_remaining b =
     (case FreeTrial b of
        None \<Rightarrow> Finite 0
      | Some ft \<Rightarrow>
          if FreeTrialStatus ft = ''ACTIVE''
          then f64_add (Finite 0)
                 (f64_sub (FT_UsageLimitWithPrecision ft) (FT_CurrentUsageWithPrecision ft))
          else Finite 0)"

definition base_remaining :: "UsageBreakdown \<Rightarrow> float64" where
  "base_remaining b = f64_sub (UsageLimitWithPrecision b) (CurrentUsageWithPrecision b)"

definition floor_at_zero :: "float64 \<Rightarrow> float64" where
  "floor_at_zero x = (if f64_less x (Finite 0) then Finite 0 else x)"

definition computeAvailable_spec :: "UsageLimits \<Rightarrow> float64" where
  "computeAvailable_spec usage =
     (case find (\<lambda>b. ResourceType b = ''CREDIT'') (UsageBreakdownList usage) of
        None \<Rightarrow> Finite 0
      | Some b \<Rightarrow> floor_at_zero (f64_add (trial_remaining b) (base_remaining b)))"

section \<open>The pool state\<close>

text \<open>
  \<^verbatim>\<open>TokenManager\<close> with its \<^verbatim>\<open>SimpleTokenCache\<close> inlined (\<open>tokens\<close>, \<open>ttl\<close>). The
  cache stores pointers to \<^verbatim>\<open>CachedToken\<close>; every pointer the manager hands around is
  the one stored under a key it knows, so a pointer is modelled by that key and the map
  holds the value. \<^verbatim>\<open>exhausted\<close> and \<^verbatim>\<open>refreshing\<close> are \<^verbatim>\<open>map[string]bool\<close> whose
  entries are only ever set to true or deleted: sets of keys. The mutex is not a field:
  each function below is one critical section.

  \<open>launched\<close> records the goroutines started by \<^verbatim>\<open>go tm.refreshSingleTokenAsync(index, cfg)\<close>
  that have not finished yet, with the arguments they were started with.
\<close>

record TokenManager =
  tokens :: "string \<rightharpoonup> CachedToken"
  ttl :: int
  configs :: "AuthConfig list"
  configOrder :: "string list"
  currentIndex :: nat
  exhausted :: "string set"
  refreshing :: "string set"
  launched :: "(int \<times> AuthConfig) list"

datatype error =
    NoTokenAvailable
  | InvalidIndex int
  | ConfigDisabled
  | IndexOutOfRangePanic
  | IntegerDivideByZeroPanic
  | EmptyRefreshToken
  | IdCNeedsClient
  | SaveFailed
  | JSONFormatInvalid

text \<open>
  The two network calls, \<^verbatim>\<open>tm.refreshSingleToken(cfg)\<close> and
  \<^verbatim>\<open>checker.CheckUsageLimits(token)\<close>, are parameters (\<open>None\<close> is their error). What a
  refresh learns from them is a \<open>refresh_outcome\<close>: \<open>None\<close> when the refresh failed,
  \<open>Some (token, None)\<close> when the refresh succeeded and the quota check failed,
  \<open>Some (token, Some usage)\<close> when both succeeded.
\<close>

type_synonym refresh_outcome = "(TokenInfo \<times> UsageLimits option) option"

definition network ::
  "(AuthConfig \<Rightarrow> TokenInfo option) \<Rightarrow> (TokenInfo \<Rightarrow> UsageLimits option) \<Rightarrow> AuthConfig
     \<Rightarrow> refresh_outcome" where
  "network refreshSingleToken CheckUsageLimits cfg =
     (case refreshSingleToken cfg of
        None \<Rightarrow> None
      | Some token \<Rightarrow> Some (token, CheckUsageLimits token))"

definition generateConfigOrder :: "AuthConfig list \<Rightarrow> string list" where
  "generateConfigOrder cfgs = map (\<lambda>i. TokenCacheKeyFormat (int i)) [0..<length cfgs]"

text \<open>\<^verbatim>\<open>NewTokenManager\<close>; \<open>TokenCacheTTL\<close> stands for \<^verbatim>\<open>config.TokenCacheTTL\<close>.\<close>

definition NewTokenManager :: "int \<Rightarrow> AuthConfig list \<Rightarrow> TokenManager" where
  "NewTokenManager TokenCacheTTL cfgs =
     \<lparr>tokens = Map.empty, ttl = TokenCacheTTL, configs = cfgs,
      configOrder = generateConfigOrder cfgs, currentIndex = 0,
      exhausted = {}, refreshing = {}, launched = []\<rparr>"

text \<open>\<^verbatim>\<open>(*CachedToken).IsUsable\<close>, with \<open>now\<close> for \<^verbatim>\<open>time.Now()\<close>.\<close>

definition IsUsable :: "int \<Rightarrow> CachedToken \<Rightarrow> bool" where
  "IsUsable now ct =
     (if now > ExpiresAt (Token ct) then False else f64_less (Finite 0) (Available ct))"

section \<open>Refresh\<close>

text \<open>
  \<^verbatim>\<open>triggerAsyncRefreshUnlocked\<close>: sets the marker and starts the goroutine, unless the
  index is out of range or the credential disabled.
\<close>

definition triggerAsyncRefreshUnlocked :: "int \<Rightarrow> string \<Rightarrow> TokenManager \<Rightarrow> TokenManager" where
  "triggerAsyncRefreshUnlocked index cacheKey tm =
     (if index < 0 \<or> index \<ge> int (length (configs tm)) then tm
      else let cfg = configs tm ! nat index in
        if Disabled cfg then tm
        else tm\<lparr>refreshing := insert cacheKey (refreshing tm),
                launched := launched tm @ [(index, cfg)]\<rparr>)"

text \<open>
  \<^verbatim>\<open>refreshSingleTokenAsync\<close> takes the lock three times, and other callers may run in
  between: (1) under the read lock it validates the index and compares the refresh token
  of \<^verbatim>\<open>tm.configs[index]\<close> with the one it was started with; (2) after the network calls
  it stores the result; (3) the deferred function deletes the in-flight marker. Each is a
  function of the state at that moment.
\<close>

definition refreshSingleTokenAsync_validate :: "int \<Rightarrow> AuthConfig \<Rightarrow> TokenManager \<Rightarrow> bool" where
  "refreshSingleTokenAsync_validate index cfg tm =
     (if index < 0 \<or> index \<ge> int (length (configs tm)) then False
      else if RefreshToken (configs tm ! nat index) \<noteq> RefreshToken cfg then False
      else True)"

definition refreshSingleTokenAsync_store ::
  "refresh_outcome \<Rightarrow> int \<Rightarrow> int \<Rightarrow> TokenManager \<Rightarrow> TokenManager" where
  "refreshSingleTokenAsync_store outcome now index tm =
     (let cacheKey = TokenCacheKeyFormat index in
      case outcome of
        None \<Rightarrow> tm
      | Some (token, usageInfo) \<Rightarrow>
          let available = (case usageInfo of Some usage \<Rightarrow> CalculateAvailableCount usage | None \<Rightarrow> Finite 0)
          in tm\<lparr>tokens := (tokens tm)(cacheKey \<mapsto>
                     \<lparr>Token = token, UsageInfo = usageInfo, CachedAt = now, LastUsed = 0,
                      Available = available\<rparr>),
                 exhausted := exhausted tm - {cacheKey}\<rparr>)"

definition refreshSingleTokenAsync_deferred :: "int \<Rightarrow> AuthConfig \<Rightarrow> TokenManager \<Rightarrow> TokenManager" where
  "refreshSingleTokenAsync_deferred index cfg tm =
     tm\<lparr>refreshing := refreshing tm - {TokenCacheKeyFormat index},
        launched := remove1 (index, cfg) (launched tm)\<rparr>"

text \<open>The whole of \<^verbatim>\<open>refreshSingleTokenAsync\<close> when nothing else runs in between.\<close>

definition refreshSingleTokenAsync ::
  "(AuthConfig \<Rightarrow> TokenInfo option) \<Rightarrow> (TokenInfo \<Rightarrow> UsageLimits option) \<Rightarrow> int
     \<Rightarrow> int \<Rightarrow> AuthConfig \<Rightarrow> TokenManager \<Rightarrow> TokenManager" where
  "refreshSingleTokenAsync refreshSingleToken CheckUsageLimits now index cfg tm =
     (if refreshSingleTokenAsync_validate index cfg tm
      then refreshSingleTokenAsync_deferred index cfg
             (refreshSingleTokenAsync_store (network refreshSingleToken CheckUsageLimits cfg) now index tm)
      else refreshSingleTokenAsync_deferred index cfg tm)"

text \<open>
  \<^verbatim>\<open>refreshSingleTokenSyncUnlock\<close> releases the lock, makes the network calls, and takes
  the lock again; \<open>refreshSingleTokenSyncUnlock_relocked\<close> is what it does from there, on
  the state it finds. Its \<^verbatim>\<open>index\<close> and \<^verbatim>\<open>cfg\<close> arguments are read by the log lines
  and the network call only. The result is the pointer it returns (nil is \<open>None\<close>).
\<close>

definition refreshSingleTokenSyncUnlock_relocked ::
  "refresh_outcome \<Rightarrow> int \<Rightarrow> string \<Rightarrow> TokenManager \<Rightarrow> CachedToken option \<times> TokenManager" where
  "refreshSingleTokenSyncUnlock_relocked outcome now cacheKey tm =
     (let tm1 = tm\<lparr>refreshing := refreshing tm - {cacheKey}\<rparr> in
      case outcome of
        None \<Rightarrow> (None, tm1)
      | Some (token, usageInfo) \<Rightarrow>
          let available = (case usageInfo of Some usage \<Rightarrow> CalculateAvailableCount usage | None \<Rightarrow> Finite 1);
              cached = \<lparr>Token = token, UsageInfo = usageInfo, CachedAt = now, LastUsed = 0,
                        Available = available\<rparr>
          in (Some cached,
              tm1\<lparr>tokens := (tokens tm1)(cacheKey \<mapsto> cached),
                  exhausted := exhausted tm1 - {cacheKey}\<rparr>))"

definition refreshSingleTokenSyncUnlock ::
  "(AuthConfig \<Rightarrow> TokenInfo option) \<Rightarrow> (TokenInfo \<Rightarrow> UsageLimits option) \<Rightarrow> int
     \<Rightarrow> AuthConfig \<Rightarrow> string \<Rightarrow> TokenManager \<Rightarrow> CachedToken option \<times> TokenManager" where
  "refreshSingleTokenSyncUnlock refreshSingleToken CheckUsageLimits now cfg cacheKey tm =
     refreshSingleTokenSyncUnlock_relocked (network refreshSingleToken CheckUsageLimits cfg)
       now cacheKey tm"

section \<open>Selection\<close>

text \<open>
  How one pass of the loop of \<^verbatim>\<open>selectBestTokenUnlocked\<close> ends: the loop goes on with
  the next position, or a cache entry (the key of it) is returned, or the pass panics.
\<close>

datatype pass = GoOn TokenManager | Chosen string TokenManager | Panicked error TokenManager

text \<open>
  \<^verbatim>\<open>tm.currentIndex = (tm.currentIndex + 1) % len(tm.configOrder)\<close>: the remainder
  panics when the order is empty.
\<close>

definition advance_cursor :: "TokenManager \<Rightarrow> pass" where
  "advance_cursor tm =
     (if length (configOrder tm) = 0 then Panicked IntegerDivideByZeroPanic tm
      else GoOn (tm\<lparr>currentIndex := (currentIndex tm + 1) mod length (configOrder tm)\<rparr>))"

text \<open>The end of the loop body: mark the position exhausted, then move the cursor on.\<close>

definition mark_exhausted :: "string \<Rightarrow> TokenManager \<Rightarrow> pass" where
  "mark_exhausted currentKey tm =
     advance_cursor (tm\<lparr>exhausted := insert currentKey (exhausted tm)\<rparr>)"

text \<open>
  The branch shared by "cache entry absent" and "cache entry stale and unusable": refresh
  the credential synchronously unless it is disabled, out of range, or already being
  refreshed (then the cursor moves on without an exhaustion mark).
\<close>

definition lazy_refresh ::
  "(AuthConfig \<Rightarrow> TokenInfo option) \<Rightarrow> (TokenInfo \<Rightarrow> UsageLimits option) \<Rightarrow> int
     \<Rightarrow> string \<Rightarrow> nat \<Rightarrow> TokenManager \<Rightarrow> pass" where
  "lazy_refresh refreshSingleToken CheckUsageLimits now currentKey currentIdx tm =
     (if currentIdx < length (configs tm) \<and> \<not> Disabled (configs tm ! currentIdx) then
        (let cfg = configs tm ! currentIdx in
         if currentKey \<in> refreshing tm then advance_cursor tm
         else
           (case refreshSingleTokenSyncUnlock refreshSingleToken CheckUsageLimits now cfg currentKey
                   (tm\<lparr>refreshing := insert currentKey (refreshing tm)\<rparr>) of
              (Some refreshed, tm') \<Rightarrow>
                if IsUsable now refreshed then Chosen currentKey tm'
                else mark_exhausted currentKey tm'
            | (None, tm') \<Rightarrow> mark_exhausted currentKey tm'))
      else mark_exhausted currentKey tm)"

text \<open>
  The loop of \<^verbatim>\<open>selectBestTokenUnlocked\<close>; the first argument counts the attempts that
  are left (the body never changes \<^verbatim>\<open>len(tm.configOrder)\<close>). \<open>Inr (Some key)\<close> is the
  pointer to the entry cached under \<open>key\<close>, \<open>Inr None\<close> is nil, and
  \<^verbatim>\<open>tm.configOrder[tm.currentIndex]\<close> panics when the cursor is out of range.
\<close>

fun selectLoop ::
  "(AuthConfig \<Rightarrow> TokenInfo option) \<Rightarrow> (TokenInfo \<Rightarrow> UsageLimits option) \<Rightarrow> int
     \<Rightarrow> nat \<Rightarrow> TokenManager \<Rightarrow> (error + string option) \<times> TokenManager" where
  "selectLoop refreshSingleToken CheckUsageLimits now 0 tm = (Inr None, tm)"
| "selectLoop refreshSingleToken CheckUsageLimits now (Suc attempts_left) tm =
     (if currentIndex tm \<ge> length (configOrder tm) then (Inl IndexOutOfRangePanic, tm)
      else
        let currentKey = configOrder tm ! currentIndex tm;
            currentIdx = currentIndex tm
        in
          (case tokens tm currentKey of
             Some cached \<Rightarrow>
               let cacheExpired = (now - CachedAt cached > ttl tm) in
               if cacheExpired then
                 if IsUsable now cached then
                   (Inr (Some currentKey),
                    if currentKey \<notin> refreshing tm
                    then triggerAsyncRefreshUnlocked (int currentIdx) currentKey tm else tm)
                 else
                   (case lazy_refresh refreshSingleToken CheckUsageLimits now currentKey currentIdx tm of
                      Chosen key tm' \<Rightarrow> (Inr (Some key), tm')
                    | GoOn tm' \<Rightarrow>
                        selectLoop refreshSingleToken CheckUsageLimits now attempts_left tm'
                    | Panicked e tm' \<Rightarrow> (Inl e, tm'))
               else
                 if IsUsable now cached then (Inr (Some currentKey), tm)
                 else
                   (case mark_exhausted currentKey tm of
                      Chosen key tm' \<Rightarrow> (Inr (Some key), tm')
                    | GoOn tm' \<Rightarrow>
                        selectLoop refreshSingleToken CheckUsageLimits now attempts_left tm'
                    | Panicked e tm' \<Rightarrow> (Inl e, tm'))
           | None \<Rightarrow>
               (case lazy_refresh refreshSingleToken CheckUsageLimits now currentKey currentIdx tm of
                  Chosen key tm' \<Rightarrow> (Inr (Some key), tm')
                | GoOn tm' \<Rightarrow>
                    selectLoop refreshSingleToken CheckUsageLimits now attempts_left tm'
                | Panicked e tm' \<Rightarrow> (Inl e, tm'))))"

definition selectBestTokenUnlocked ::
  "(AuthConfig \<Rightarrow> TokenInfo option) \<Rightarrow> (TokenInfo \<Rightarrow> UsageLimits option) \<Rightarrow> int
     \<Rightarrow> TokenManager \<Rightarrow> (error + string option) \<times> TokenManager" where
  "selectBestTokenUnlocked refreshSingleToken CheckUsageLimits now tm =
     (if length (configOrder tm) = 0 then (Inr None, tm)
      else selectLoop refreshSingleToken CheckUsageLimits now (length (configOrder tm)) tm)"

text \<open>
  \<^verbatim>\<open>getBestToken\<close>: \<^verbatim>\<open>bestToken\<close> points into the cache, so the two assignments change
  the cached entry. \<open>getBestToken_after\<close> is the part after the selection.
\<close>

definition dispense :: "int \<Rightarrow> CachedToken \<Rightarrow> CachedToken" where
  "dispense now bestToken =
     (let b = bestToken\<lparr>LastUsed := now\<rparr>
      in if f64_less (Finite 0) (Available b)
         then b\<lparr>Available := f64_sub (Available b) (Finite 1)\<rparr> else b)"

definition getBestToken_after ::
  "int \<Rightarrow> (error + string option) \<times> TokenManager \<Rightarrow> (error + TokenInfo) \<times> TokenManager" where
  "getBestToken_after now selected =
     (case selected of
        (Inl e, tm') \<Rightarrow> (Inl e, tm')
      | (Inr None, tm') \<Rightarrow> (Inl NoTokenAvailable, tm')
      | (Inr (Some key), tm') \<Rightarrow>
          (case tokens tm' key of
             None \<Rightarrow> (Inl NoTokenAvailable, tm')
           | Some bestToken \<Rightarrow>
               (Inr (Token bestToken), tm'\<lparr>tokens := (tokens tm')(key \<mapsto> dispense now bestToken)\<rparr>)))"

definition getBestToken ::
  "(AuthConfig \<Rightarrow> TokenInfo option) \<Rightarrow> (TokenInfo \<Rightarrow> UsageLimits option) \<Rightarrow> int
     \<Rightarrow> TokenManager \<Rightarrow> (error + TokenInfo) \<times> TokenManager" where
  "getBestToken refreshSingleToken CheckUsageLimits now tm =
     getBestToken_after now (selectBestTokenUnlocked refreshSingleToken CheckUsageLimits now tm)"

section \<open>Mutation of the pool\<close>

text \<open>\<^verbatim>\<open>(*TokenManager).AddConfig\<close>.\<close>

definition AddConfig :: "AuthConfig \<Rightarrow> TokenManager \<Rightarrow> TokenManager" where
  "AddConfig cfg tm =
     (let configs' = configs tm @ [cfg];
          newIndex = int (length configs') - 1;
          cacheKey = TokenCacheKeyFormat newIndex
      in tm\<lparr>configs := configs',
             configOrder := configOrder tm @ [cacheKey],
             launched := (if \<not> Disabled cfg then launched tm @ [(newIndex, cfg)] else launched tm)\<rparr>)"

text \<open>
  \<^verbatim>\<open>(*TokenManager).RemoveConfig\<close>. The loop over the shortened list builds the new
  cache, order and exhaustion marks from the old ones.
\<close>

fun RemoveConfig_loop ::
  "int \<Rightarrow> (string \<rightharpoonup> CachedToken) \<Rightarrow> string set \<Rightarrow> nat list
     \<Rightarrow> (string \<rightharpoonup> CachedToken) \<times> string list \<times> string set
     \<Rightarrow> (string \<rightharpoonup> CachedToken) \<times> string list \<times> string set" where
  "RemoveConfig_loop index old_tokens old_exhausted [] acc = acc"
| "RemoveConfig_loop index old_tokens old_exhausted (i # rest) (newCache, newOrder, newExhausted) =
     (let newCacheKey = TokenCacheKeyFormat (int i);
          oldIdx = (if int i \<ge> index then int i + 1 else int i);
          oldKey = TokenCacheKeyFormat oldIdx
      in RemoveConfig_loop index old_tokens old_exhausted rest
           ((case old_tokens oldKey of
               Some cached \<Rightarrow> newCache(newCacheKey \<mapsto> cached)
             | None \<Rightarrow> newCache),
            newOrder @ [newCacheKey],
            (if oldKey \<in> old_exhausted then insert newCacheKey newExhausted else newExhausted)))"

definition RemoveConfig :: "int \<Rightarrow> TokenManager \<Rightarrow> error option \<times> TokenManager" where
  "RemoveConfig index tm =
     (if index < 0 \<or> index \<ge> int (length (configs tm)) then (Some (InvalidIndex index), tm)
      else
        let configs' = take (nat index) (configs tm) @ drop (nat index + 1) (configs tm);
            oldCacheKey = TokenCacheKeyFormat index;
            tokens1 = (tokens tm)(oldCacheKey := None);
            exhausted1 = exhausted tm - {oldCacheKey};
            (newCache, newOrder, newExhausted) =
               RemoveConfig_loop index tokens1 exhausted1 [0..<length configs'] (Map.empty, [], {})
        in (None,
            tm\<lparr>configs := configs', tokens := newCache, configOrder := newOrder,
               exhausted := newExhausted,
               currentIndex := (if currentIndex tm \<ge> length configs' then 0 else currentIndex tm)\<rparr>))"

text \<open>\<^verbatim>\<open>RefreshSingleTokenByIndex\<close>, the manual refresh of one position.\<close>

definition RefreshSingleTokenByIndex :: "int \<Rightarrow> TokenManager \<Rightarrow> error option \<times> TokenManager" where
  "RefreshSingleTokenByIndex index tm =
     (if index < 0 \<or> index \<ge> int (length (configs tm)) then (Some (InvalidIndex index), tm)
      else let cfg = configs tm ! nat index in
        if Disabled cfg then (Some ConfigDisabled, tm)
        else (None, tm\<lparr>launched := launched tm @ [(index, cfg)]\<rparr>))"

section \<open>The facade (auth/auth.go) and the configuration document (auth/config.go)\<close>

text \<open>\<^verbatim>\<open>AuthService\<close>; its \<^verbatim>\<open>configs\<close> field is \<open>service_configs\<close>.\<close>

record AuthService =
  tokenManager :: TokenManager
  service_configs :: "AuthConfig list"

text \<open>
  \<^verbatim>\<open>(*AuthService).AddConfig\<close> and \<^verbatim>\<open>(*AuthService).RemoveConfig\<close>. \<open>SaveConfigs\<close> is
  the write of the configuration file, \<open>None\<close> when it succeeds.
\<close>

definition AuthService_AddConfig ::
  "(AuthConfig list \<Rightarrow> error option) \<Rightarrow> int \<Rightarrow> AuthConfig \<Rightarrow> AuthService
     \<Rightarrow> error option \<times> AuthService" where
  "AuthService_AddConfig SaveConfigs TokenCacheTTL config0 as =
     (if RefreshToken config0 = [] then (Some EmptyRefreshToken, as)
      else
        let config = (if AuthType config0 = [] then config0\<lparr>AuthType := AuthMethodSocial\<rparr> else config0)
        in
          if AuthType config = AuthMethodIdC \<and> (ClientID config = [] \<or> ClientSecret config = [])
          then (Some IdCNeedsClient, as)
          else
            let oldConfigs = service_configs as;
                as1 = as\<lparr>service_configs := service_configs as @ [config],
                         tokenManager := AddConfig config (tokenManager as)\<rparr>
            in (case SaveConfigs (service_configs as1) of
                  Some err \<Rightarrow>
                    (Some SaveFailed,
                     as1\<lparr>service_configs := oldConfigs,
                         tokenManager := NewTokenManager TokenCacheTTL oldConfigs\<rparr>)
                | None \<Rightarrow> (None, as1)))"

definition AuthService_RemoveConfig ::
  "(AuthConfig list \<Rightarrow> error option) \<Rightarrow> int \<Rightarrow> int \<Rightarrow> AuthService
     \<Rightarrow> error option \<times> AuthService" where
  "AuthService_RemoveConfig SaveConfigs TokenCacheTTL index as =
     (if index < 0 \<or> index \<ge> int (length (service_configs as)) then (Some (InvalidIndex index), as)
      else
        let oldConfigs = service_configs as;
            as1 = as\<lparr>service_configs :=
                       take (nat index) (service_configs as) @ drop (nat index + 1) (service_configs as)\<rparr>
        in (case RemoveConfig index (tokenManager as1) of
              (Some err, _) \<Rightarrow> (Some err, as1\<lparr>service_configs := oldConfigs\<rparr>)
            | (None, tm') \<Rightarrow>
                let as2 = as1\<lparr>tokenManager := tm'\<rparr> in
                (case SaveConfigs (service_configs as2) of
                   Some err \<Rightarrow>
                     (Some SaveFailed,
                      as2\<lparr>service_configs := oldConfigs,
                          tokenManager := NewTokenManager TokenCacheTTL oldConfigs\<rparr>)
                 | None \<Rightarrow> (None, as2))))"

text \<open>
  \<^verbatim>\<open>parseJSONConfig\<close>. The two calls of \<^verbatim>\<open>json.Unmarshal\<close>, into a
  \<^verbatim>\<open>[]AuthConfig\<close> and into an \<^verbatim>\<open>AuthConfig\<close>, are parameters (\<open>None\<close> is their error).
\<close>

definition parseJSONConfig ::
  "(string \<Rightarrow> AuthConfig list option) \<Rightarrow> (string \<Rightarrow> AuthConfig option) \<Rightarrow> string
     \<Rightarrow> error + AuthConfig list" where
  "parseJSONConfig unmarshal_array unmarshal_object jsonData =
     (case unmarshal_array jsonData of
        Some cfgs \<Rightarrow> Inr cfgs
      | None \<Rightarrow>
          (case unmarshal_object jsonData of
             None \<Rightarrow> Inl JSONFormatInvalid
           | Some single \<Rightarrow> Inr [single]))"

section \<open>Example data\<close>

text \<open>Three credentials, two access tokens and quota snapshots, for the concrete runs below.\<close>

definition credA :: AuthConfig where
  "credA = \<lparr>AuthType = ''Social'', RefreshToken = ''refresh-A'', ClientID = [],
            ClientSecret = [], Disabled = False\<rparr>"

definition credB :: AuthConfig where
  "credB = \<lparr>AuthType = ''Social'', RefreshToken = ''refresh-B'', ClientID = [],
            ClientSecret = [], Disabled = False\<rparr>"

definition credD :: AuthConfig where
  "credD = \<lparr>AuthType = ''Social'', RefreshToken = ''refresh-D'', ClientID = [],
            ClientSecret = [], Disabled = True\<rparr>"

definition accessA :: TokenInfo where
  "accessA = \<lparr>AccessToken = ''access-A'', ExpiresAt = 1000\<rparr>"

definition accessB :: TokenInfo where
  "accessB = \<lparr>AccessToken = ''access-B'', ExpiresAt = 1000\<rparr>"

definition credit :: "float64 \<Rightarrow> float64 \<Rightarrow> UsageBreakdown" where
  "credit limit used =
     \<lparr>ResourceType = ''CREDIT'', FreeTrial = None,
      UsageLimitWithPrecision = limit, CurrentUsageWithPrecision = used\<rparr>"

definition usage5 :: UsageLimits where
  "usage5 = \<lparr>UsageBreakdownList = [credit (Finite 5) (Finite 0)]\<rparr>"

definition usage_half :: UsageLimits where
  "usage_half = \<lparr>UsageBreakdownList = [credit (Finite 3) (Finite (5 / 2))]\<rparr>"

text \<open>
  A snapshot whose active free trial has limit \<open>2^1023\<close> and usage \<open>-2^1023\<close>, and whose
  base allocation has limit \<open>-2^1023\<close> and usage \<open>2^1023\<close>.
\<close>

definition usage_overflow :: UsageLimits where
  "usage_overflow =
     \<lparr>UsageBreakdownList =
        [\<lparr>ResourceType = ''CREDIT'',
          FreeTrial = Some \<lparr>FreeTrialStatus = ''ACTIVE'',
                           FT_UsageLimitWithPrecision = Finite (2 ^ 1023),
                           FT_CurrentUsageWithPrecision = Finite (- (2 ^ 1023))\<rparr>,
          UsageLimitWithPrecision = Finite (- (2 ^ 1023)),
          CurrentUsageWithPrecision = Finite (2 ^ 1023)\<rparr>]\<rparr>"

definition entry :: "TokenInfo \<Rightarrow> rat \<Rightarrow> CachedToken" where
  "entry token available =
     \<lparr>Token = token, UsageInfo = None, CachedAt = 0, LastUsed = 0,
      Available = Finite available\<rparr>"

text \<open>Outcomes of the two network calls: failure, or one fixed answer.\<close>

definition refresh_fails :: "AuthConfig \<Rightarrow> TokenInfo option" where
  "refresh_fails cfg = None"

definition refresh_gives_A :: "AuthConfig \<Rightarrow> TokenInfo option" where
  "refresh_gives_A cfg = Some accessA"

definition refresh_enabled_gives_A :: "AuthConfig \<Rightarrow> TokenInfo option" where
  "refresh_enabled_gives_A cfg = (if Disabled cfg then None else Some accessA)"

definition quota_fails :: "TokenInfo \<Rightarrow> UsageLimits option" where
  "quota_fails token = None"

definition quota_gives_half :: "TokenInfo \<Rightarrow> UsageLimits option" where
  "quota_gives_half token = Some usage_half"

definition quota_gives_5 :: "TokenInfo \<Rightarrow> UsageLimits option" where
  "quota_gives_5 token = Some usage5"


text \<open>Three credentials with cache entries at positions 0, 1 and 2; the cursor at the last.\<close>

definition pool3 :: TokenManager where
  "pool3 = (NewTokenManager 300 [credA, credB, credD])
             \<lparr>tokens := [''token_0'' \<mapsto> entry accessA 3, ''token_1'' \<mapsto> entry accessB 4,
                          ''token_2'' \<mapsto> entry accessB 5],
              currentIndex := 2\<rparr>"

text \<open>A pool whose only credential is disabled and has a warm cache entry.\<close>

definition disabled_pool :: TokenManager where
  "disabled_pool = (NewTokenManager 300 [credD])\<lparr>tokens := [''token_0'' \<mapsto> entry accessA 10]\<rparr>"

text \<open>
  A disabled credential without a cache entry at the cursor, followed by an enabled one:
  once with a warm entry, once cold.
\<close>

definition skip_pool :: TokenManager where
  "skip_pool = (NewTokenManager 300 [credD, credA])\<lparr>tokens := [''token_1'' \<mapsto> entry accessA 10]\<rparr>"

definition cold_skip_pool :: TokenManager where
  "cold_skip_pool = NewTokenManager 300 [credD, credA]"

text \<open>A background refresh of position 0 has been started by the selection.\<close>

definition marked_pool :: TokenManager where
  "marked_pool = triggerAsyncRefreshUnlocked 0 ''token_0'' (NewTokenManager 300 [credA, credB])"

text \<open>Position 0 refreshed by hand twice, from a cold pool and from \<open>marked_pool\<close>.\<close>

definition refreshed_twice :: TokenManager where
  "refreshed_twice =
     snd (RefreshSingleTokenByIndex 0 (snd (RefreshSingleTokenByIndex 0 (NewTokenManager 300 [credA]))))"

definition marked_then_manual :: TokenManager where
  "marked_then_manual = snd (RefreshSingleTokenByIndex 0 marked_pool)"

text \<open>
  Two credentials added to an empty pool, each with its background refresh started; and
  the state in which the selection has released the lock for a synchronous refresh of
  position 0.
\<close>

definition two_pool :: TokenManager where
  "two_pool = AddConfig credB (AddConfig credA (NewTokenManager 300 []))"

definition sync_started :: TokenManager where
  "sync_started = (NewTokenManager 300 [credA, credB])\<lparr>refreshing := {''token_0''}\<rparr>"



section \<open>Auxiliary notions for the removal\<close>

text \<open>The key a position of the shortened list had before \<open>index\<close> was removed.\<close>

definition old_key :: "int \<Rightarrow> nat \<Rightarrow> string" where
  "old_key index i = TokenCacheKeyFormat (if int i \<ge> index then int i + 1 else int i)"

text \<open>What the loop of \<^verbatim>\<open>RemoveConfig\<close> computes on a pool.\<close>

definition RemoveConfig_result ::
  "int \<Rightarrow> TokenManager \<Rightarrow> (string \<rightharpoonup> CachedToken) \<times> string list \<times> string set" where
  "RemoveConfig_result index tm =
     RemoveConfig_loop index ((tokens tm)(TokenCacheKeyFormat index := None))
       (exhausted tm - {TokenCacheKeyFormat index})
       [0..<length (configs tm) - 1] (Map.empty, [], {})"

section \<open>Rounding to \<^verbatim>\<open>float64\<close>\<close>

lemma bit_length_bounds:
  "0 < n \<Longrightarrow> 2 ^ (bit_length n - 1) \<le> n \<and> n < 2 ^ bit_length n"
proof (induction n rule: bit_length.induct)
  case (1 n)
  show ?case
  proof (cases "n div 2 = 0")
    case True
    with "1.prems" have "n = 1" by (simp add: div_eq_0_iff) 
    then show ?thesis by (simp add: bit_length.simps)
  next
    case False
    then have pos: "0 < n div 2" by simp
    from "1.prems" have n0: "n \<noteq> 0" by simp
    from "1.IH" [OF n0 pos] have lo: "2 ^ (bit_length (n div 2) - 1) \<le> n div 2"
      and hi: "n div 2 < 2 ^ bit_length (n div 2)" by simp_all
    have bl: "bit_length n = Suc (bit_length (n div 2))"
      using n0 by (subst bit_length.simps) simp
    have blpos: "0 < bit_length (n div 2)"
      using False by (subst bit_length.simps) simp
    then obtain b where b: "bit_length (n div 2) = Suc b" by (cases "bit_length (n div 2)") simp_all
    from lo b have "2 * 2 ^ b \<le> 2 * (n div 2)" by simp
    also have "\<dots> \<le> n" by simp
    finally have l: "2 ^ (bit_length n - 1) \<le> n" using bl b by simp
    from hi have "n div 2 + 1 \<le> 2 ^ bit_length (n div 2)" by simp
    then have "2 * (n div 2) + 2 \<le> 2 * 2 ^ bit_length (n div 2)" by simp
    moreover have "n \<le> 2 * (n div 2) + 1" by presburger
    ultimately have h: "n < 2 ^ bit_length n" using bl by simp
    from l h show ?thesis by simp
  qed
qed

lemma powi_diff_nat:
  "(2::rat) powi (int a - int b) = 2 ^ a / 2 ^ b"
  by (simp add: power_int_diff)

lemma exponent2_raw:
  assumes "0 < a"
    and q: "quotient_of a = (p, q)"
  defines "k \<equiv> int (bit_length (nat p)) - int (bit_length (nat q))"
  shows "2 powi (k - 1) \<le> a \<and> a < 2 powi (k + 1)"
proof -
  from q have qpos: "0 < q" by (rule quotient_of_denom_pos)
  from q have a: "a = of_int p / of_int q" by (rule quotient_of_div)
  with assms(1) qpos have ppos: "0 < p" by (simp add: zero_less_divide_iff)
  define P Q where "P = nat p" and "Q = nat q"
  have P: "0 < P" "of_int p = (of_nat P :: rat)" using ppos by (simp_all add: P_def)
  have Q: "0 < Q" "of_int q = (of_nat Q :: rat)" using qpos by (simp_all add: Q_def)
  define bp bq where "bp = bit_length P" and "bq = bit_length Q"
  from bit_length_bounds [OF P(1)] have p1: "2 ^ (bp - 1) \<le> P" and p2: "P < 2 ^ bp"
    by (simp_all add: bp_def)
  from bit_length_bounds [OF Q(1)] have q1: "2 ^ (bq - 1) \<le> Q" and q2: "Q < 2 ^ bq"
    by (simp_all add: bq_def)
  have bp: "1 \<le> bp" using p2 P(1) by (cases bp) simp_all
  have bq: "1 \<le> bq" using q2 Q(1) by (cases bq) simp_all
  have k: "k = int bp - int bq" by (simp add: k_def bp_def bq_def P_def Q_def)
  have km: "k - 1 = int (bp - 1) - int bq" using bp k by simp
  have kp: "k + 1 = int bp - int (bq - 1)" using bq k by simp
  have p1r: "(2::rat) ^ (bp - 1) \<le> of_nat P" using p1 by (metis of_nat_le_iff of_nat_numeral of_nat_power)
  have p2r: "of_nat P < (2::rat) ^ bp" using p2 by (metis of_nat_less_iff of_nat_numeral of_nat_power)
  have q1r: "(2::rat) ^ (bq - 1) \<le> of_nat Q" using q1 by (metis of_nat_le_iff of_nat_numeral of_nat_power)
  have q2r: "of_nat Q < (2::rat) ^ bq" using q2 by (metis of_nat_less_iff of_nat_numeral of_nat_power)
  have Qr: "0 < (of_nat Q :: rat)" using Q(1) by simp
  have Pr: "0 < (of_nat P :: rat)" using P(1) by simp
  have lo: "2 powi (k - 1) \<le> a"
  proof -
    have "(2::rat) ^ (bp - 1) / 2 ^ bq \<le> of_nat P / 2 ^ bq"
      using p1r by (simp add: divide_right_mono)
    also have "\<dots> \<le> of_nat P / of_nat Q"
      using q2r Qr Pr by (simp add: frac_le)
    finally show ?thesis unfolding km powi_diff_nat a P(2) Q(2) .
  qed
  have hi: "a < 2 powi (k + 1)"
  proof -
    have "of_nat P / of_nat Q < (2::rat) ^ bp / of_nat Q"
      using p2r Qr by (simp add: divide_strict_right_mono)
    also have "\<dots> \<le> 2 ^ bp / 2 ^ (bq - 1)"
      using q1r by (simp add: frac_le)
    finally show ?thesis unfolding kp powi_diff_nat a P(2) Q(2) .
  qed
  from lo hi show ?thesis by simp
qed

lemma exponent2_bounds:
  assumes "r \<noteq> 0"
  shows "2 powi (exponent2 r) \<le> \<bar>r\<bar> \<and> \<bar>r\<bar> < 2 powi (exponent2 r + 1)"
proof -
  obtain p q where q: "quotient_of \<bar>r\<bar> = (p, q)" by (cases "quotient_of \<bar>r\<bar>")
  from assms have pos: "0 < \<bar>r\<bar>" by simp
  define k where "k = int (bit_length (nat p)) - int (bit_length (nat q))"
  from exponent2_raw [OF pos q] have b: "2 powi (k - 1) \<le> \<bar>r\<bar>" "\<bar>r\<bar> < 2 powi (k + 1)"
    by (simp_all add: k_def)
  have e: "exponent2 r = (if 2 powi k \<le> \<bar>r\<bar> then k else k - 1)"
    by (simp add: exponent2_def q k_def Let_def)
  show ?thesis
  proof (cases "2 powi k \<le> \<bar>r\<bar>")
    case True
    with e b show ?thesis by simp
  next
    case False
    with e b show ?thesis by simp
  qed
qed

lemma exponent2_unique:
  assumes "2 powi k \<le> \<bar>r\<bar>" and "\<bar>r\<bar> < 2 powi (k + 1)"
  shows "exponent2 r = k"
proof -
  have "(0::rat) < 2 powi k" by simp
  with assms(1) have "0 < \<bar>r\<bar>" by linarith
  then have nz: "r \<noteq> 0" by simp
  note b = exponent2_bounds [OF nz]
  have "\<not> exponent2 r < k"
  proof
    assume "exponent2 r < k"
    then have "exponent2 r + 1 \<le> k" by simp
    then have "(2::rat) powi (exponent2 r + 1) \<le> 2 powi k"
      by (intro power_int_increasing) simp_all
    with b assms(1) show False by simp
  qed
  moreover have "\<not> k < exponent2 r"
  proof
    assume "k < exponent2 r"
    then have "k + 1 \<le> exponent2 r" by simp
    then have "(2::rat) powi (k + 1) \<le> 2 powi (exponent2 r)"
      by (intro power_int_increasing) simp_all
    with b assms(2) show False by simp
  qed
  ultimately show ?thesis by simp
qed

lemma exponent2_less:
  assumes "r \<noteq> 0" and "\<bar>r\<bar> < 2 powi k"
  shows "exponent2 r < k"
proof (rule ccontr)
  assume "\<not> exponent2 r < k"
  then have "k \<le> exponent2 r" by simp
  then have "(2::rat) powi k \<le> 2 powi (exponent2 r)"
    by (intro power_int_increasing) simp_all
  with exponent2_bounds [OF assms(1)] assms(2) show False by simp
qed

lemma round_half_even_of_int [simp]: "round_half_even (of_int n) = n"
  by (simp add: round_half_even_def)

lemma round64_exact:
  assumes r: "r = of_int m * 2 powi e" and m: "\<bar>m\<bar> < 2 ^ 53" and e: "- 1074 \<le> e"
  shows "round64 r =
           (if 2 powi 1024 \<le> r then PosInf
            else if r \<le> - (2 powi 1024) then NegInf
            else Finite r)"
proof (cases "r = 0")
  case True
  have "\<not> (2::rat) powi 1024 \<le> 0" by simp
  moreover have "\<not> (0::rat) \<le> - (2 powi 1024)" by simp
  ultimately show ?thesis using True by (simp add: round64_def)
next
  case False
  define qe where "qe = max (exponent2 r) (- 1022) - 52"
  have "\<bar>r\<bar> = of_int \<bar>m\<bar> * 2 powi e"
    unfolding r by (simp add: abs_mult)
  also have "\<dots> < 2 ^ 53 * 2 powi e"
  proof -
    have "(of_int \<bar>m\<bar> :: rat) < of_int (2 ^ 53)" using m by (simp only: of_int_less_iff)
    then have "(of_int \<bar>m\<bar> :: rat) < 2 ^ 53" by simp
    then show ?thesis by (simp add: mult_strict_right_mono)
  qed
  also have "\<dots> = 2 powi (53 + e)"
    by (simp add: power_int_add)
  finally have "\<bar>r\<bar> < 2 powi (53 + e)" .
  from exponent2_less [OF False this] have "exponent2 r - 52 \<le> e" by simp
  with e have qe: "qe \<le> e" by (simp add: qe_def)
  define n where "n = m * 2 ^ nat (e - qe)"
  have sp: "(2::rat) powi e = 2 powi (e - qe) * 2 powi qe"
    by (simp flip: power_int_add)
  have pw: "(2::rat) powi (e - qe) = 2 ^ nat (e - qe)"
    using qe by (simp add: power_int_def)
  have quot: "r / 2 powi qe = of_int n"
    unfolding r n_def by (subst sp) (simp add: pw)
  have prd: "of_int n * 2 powi qe = r"
    unfolding r n_def by (subst sp) (simp add: pw)
  show ?thesis
    using False
    by (simp add: round64_def Let_def qe_def [symmetric] quot prd)
qed

lemma round64_int:
  "\<bar>m\<bar> < 2 ^ 53 \<Longrightarrow> round64 (of_int m) = Finite (of_int m)"
proof -
  assume m: "\<bar>m\<bar> < 2 ^ 53"
  have r: "(of_int m :: rat) = of_int m * 2 powi 0" by simp
  have small: "\<bar>of_int m :: rat\<bar> < 2 ^ 53"
  proof -
    have "(of_int \<bar>m\<bar> :: rat) < of_int (2 ^ 53)" using m by (simp only: of_int_less_iff)
    then show ?thesis by simp
  qed
  have big: "(2::rat) ^ 53 \<le> 2 powi 1024"
    by (simp add: power_increasing)
  from small big have "\<not> 2 powi 1024 \<le> (of_int m :: rat)" "\<not> (of_int m :: rat) \<le> - (2 powi 1024)"
    by linarith+
  with round64_exact [OF r m] show ?thesis by simp
qed


lemma round64_half [simp]: "round64 (1 / 2) = Finite (1 / 2)"
  using round64_exact [of "1 / 2" 1 "- 1"] by simp

lemma round64_minus_half [simp]: "round64 (- (1 / 2)) = Finite (- (1 / 2))"
  using round64_exact [of "- (1 / 2)" "- 1" "- 1"] by simp

lemma round64_numeral [simp]:
  "numeral n < (2::int) ^ 53 \<Longrightarrow> round64 (numeral n) = Finite (numeral n)"
  using round64_int [of "numeral n"] by simp

lemma round64_one [simp]: "round64 1 = Finite 1"
  using round64_int [of 1] by simp

lemma round64_overflow:
  "round64 (2 ^ 1023 + 2 ^ 1023) = PosInf" "round64 (- (2 ^ 1023) - 2 ^ 1023) = NegInf"
  using round64_exact [of "2 ^ 1023 + 2 ^ 1023" 1 1024]
    round64_exact [of "- (2 ^ 1023) - 2 ^ 1023" "- 1" 1024]
  by simp_all

text \<open>The example amounts are binary64 numbers: rounding leaves them as they are.\<close>

lemma example_amounts_representable:
  "round64 5 = Finite 5" "round64 3 = Finite 3" "round64 (5 / 2) = Finite (5 / 2)"
  "round64 10 = Finite 10" "round64 (2 ^ 1023) = Finite (2 ^ 1023)"
  "round64 (- (2 ^ 1023)) = Finite (- (2 ^ 1023))"
  using round64_exact [of "5 / 2" 5 "- 1"] round64_exact [of "2 ^ 1023" 1 1023]
    round64_exact [of "- (2 ^ 1023)" "- 1" 1023]
  by simp_all

lemma f64_less_irrefl [simp]: "\<not> f64_less x x"
  by (cases x) simp_all

lemma f64_not_less_le: "x \<noteq> NaN \<Longrightarrow> y \<noteq> NaN \<Longrightarrow> \<not> f64_less x y \<Longrightarrow> f64_le y x"
  by (cases x; cases y) simp_all

section \<open>Quota accounting: the computed count\<close>

lemma CalculateAvailableCount_loop_find:
  "CalculateAvailableCount_loop bs =
     (case find (\<lambda>b. ResourceType b = ''CREDIT'') bs of
        None \<Rightarrow> Finite 0
      | Some b \<Rightarrow> floor_at_zero (f64_add (trial_remaining b) (base_remaining b)))"
  by (induction bs)
     (auto simp: trial_remaining_def base_remaining_def floor_at_zero_def Let_def
        split: option.splits)

text \<open>
  What holds of the computed count for every snapshot: it is the one the contract
  describes, with the sums of \<^verbatim>\<open>float64\<close>; it is never below zero; and it is at least
  zero unless it is NaN.
\<close>

lemma CalculateAvailableCount_never_below_zero:
  "CalculateAvailableCount usage = computeAvailable_spec usage"
  "\<not> f64_less (CalculateAvailableCount usage) (Finite 0)"
  "CalculateAvailableCount usage = NaN \<or> f64_le (Finite 0) (CalculateAvailableCount usage)"
proof -
  show eq: "CalculateAvailableCount usage = computeAvailable_spec usage"
    by (simp add: CalculateAvailableCount_def computeAvailable_spec_def
        CalculateAvailableCount_loop_find)
  show nl: "\<not> f64_less (CalculateAvailableCount usage) (Finite 0)"
    unfolding eq
    by (simp add: computeAvailable_spec_def floor_at_zero_def split: option.splits)
  show "CalculateAvailableCount usage = NaN \<or> f64_le (Finite 0) (CalculateAvailableCount usage)"
    using nl f64_not_less_le [of "CalculateAvailableCount usage" "Finite 0"] by auto
qed

text \<open>
  C9. The claim is that the computed count is non-negative for every quota snapshot,
  being the floored sum of the base and the active trial remainders. For
  \<open>usage_overflow\<close> the trial remainder \<open>2^1023 - (-2^1023)\<close> overflows to plus infinity
  and the base remainder to minus infinity; their sum is NaN, the test
  \<^verbatim>\<open>totalAvailable < 0\<close> is false for it, and NaN is returned: a value that is not at
  least zero.
\<close>

theorem CalculateAvailableCount_returns_NaN:
  "trial_remaining (hd (UsageBreakdownList usage_overflow)) = PosInf
   \<and> base_remaining (hd (UsageBreakdownList usage_overflow)) = NegInf
   \<and> CalculateAvailableCount usage_overflow = NaN
   \<and> \<not> f64_le (Finite 0) (CalculateAvailableCount usage_overflow)"
  by (simp add: CalculateAvailableCount_def usage_overflow_def trial_remaining_def
      base_remaining_def f64_sub_def round64_overflow [simplified] Let_def)

section \<open>Properties of the cache keys\<close>

lemma digit_char_inj:
  assumes "a < 10" "b < 10" "digit_char a = digit_char b"
  shows "a = b"
proof -
  have d: "distinct ''0123456789''" by simp
  have "a < length ''0123456789''" "b < length ''0123456789''"
    using assms by simp_all
  with d assms(3) show ?thesis
    unfolding digit_char_def by (simp only: nth_eq_iff_index_eq)
qed

lemma decimal_nonempty: "decimal n \<noteq> []"
  by (subst decimal.simps) simp

lemma decimal_length_ge2: "10 \<le> n \<Longrightarrow> 2 \<le> length (decimal n)"
proof -
  assume "10 \<le> n"
  then have "decimal n = decimal (n div 10) @ [digit_char (n mod 10)]"
    by (subst decimal.simps) simp
  moreover have "1 \<le> length (decimal (n div 10))"
    using decimal_nonempty [of "n div 10"] by (cases "decimal (n div 10)") simp_all
  ultimately show ?thesis by simp
qed

lemma decimal_inj: "decimal m = decimal n \<Longrightarrow> m = n"
proof (induction m arbitrary: n rule: decimal.induct)
  case (1 m)
  show ?case
  proof (cases "m < 10")
    case small_m: True
    then have dm: "decimal m = [digit_char m]" by (subst decimal.simps) simp
    show ?thesis
    proof (cases "n < 10")
      case True
      then have "decimal n = [digit_char n]" by (subst decimal.simps) simp
      with dm "1.prems" have "digit_char m = digit_char n" by simp
      with small_m True show ?thesis by (rule digit_char_inj)
    next
      case False
      then have "2 \<le> length (decimal n)" by (simp add: decimal_length_ge2)
      with dm "1.prems" show ?thesis by simp
    qed
  next
    case big_m: False
    then have dm: "decimal m = decimal (m div 10) @ [digit_char (m mod 10)]"
      by (subst decimal.simps) simp
    show ?thesis
    proof (cases "n < 10")
      case True
      then have "decimal n = [digit_char n]" by (subst decimal.simps) simp
      moreover from big_m have "2 \<le> length (decimal m)" by (simp add: decimal_length_ge2)
      ultimately show ?thesis using "1.prems" by simp
    next
      case False
      then have dn: "decimal n = decimal (n div 10) @ [digit_char (n mod 10)]"
        by (subst decimal.simps) simp
      from dm dn "1.prems" have pre: "decimal (m div 10) = decimal (n div 10)"
        and lst: "digit_char (m mod 10) = digit_char (n mod 10)" by simp_all
      from "1.IH" [OF big_m pre] have q: "m div 10 = n div 10" .
      have r: "m mod 10 = n mod 10"
        by (rule digit_char_inj [OF _ _ lst]) simp_all
      from q r show ?thesis by (metis div_mult_mod_eq)
    qed
  qed
qed

lemma TokenCacheKeyFormat_inj:
  "0 \<le> i \<Longrightarrow> 0 \<le> j \<Longrightarrow> TokenCacheKeyFormat i = TokenCacheKeyFormat j \<Longrightarrow> i = j"
  by (auto simp: TokenCacheKeyFormat_def dest: decimal_inj)

lemma TokenCacheKeyFormat_eq_iff [simp]:
  "TokenCacheKeyFormat (int m) = TokenCacheKeyFormat (int n) \<longleftrightarrow> m = n"
  using TokenCacheKeyFormat_inj [of "int m" "int n"] by auto



lemma key0 [simp]: "TokenCacheKeyFormat 0 = ''token_0''"
  by (simp add: TokenCacheKeyFormat_def decimal.simps digit_char_def)

lemma key1 [simp]: "TokenCacheKeyFormat 1 = ''token_1''"
  by (simp add: TokenCacheKeyFormat_def decimal.simps digit_char_def)

lemma key2 [simp]: "TokenCacheKeyFormat 2 = ''token_2''"
  by (simp add: TokenCacheKeyFormat_def decimal.simps digit_char_def)

lemma gco1: "generateConfigOrder [a] = [''token_0'']"
  by (simp add: generateConfigOrder_def)

lemma gco2: "generateConfigOrder [a, b] = [''token_0'', ''token_1'']"
  by (simp add: generateConfigOrder_def upt_rec)

lemma TokenCacheKeyFormat_neq_shift:
  "k \<le> i \<Longrightarrow> TokenCacheKeyFormat (int i + 1) \<noteq> TokenCacheKeyFormat (int k)"
  using TokenCacheKeyFormat_inj [of "int i + 1" "int k"] by auto

section \<open>What the selection returns\<close>


lemma advance_cursor_not_Chosen [simp]: "advance_cursor tm \<noteq> Chosen key tm'"
  by (simp add: advance_cursor_def)

lemma mark_exhausted_not_Chosen [simp]: "mark_exhausted k tm \<noteq> Chosen key tm'"
  by (simp add: mark_exhausted_def)


lemma triggerAsyncRefreshUnlocked_keeps [simp]:
  "tokens (triggerAsyncRefreshUnlocked index cacheKey tm) = tokens tm"
  "configOrder (triggerAsyncRefreshUnlocked index cacheKey tm) = configOrder tm"
  "currentIndex (triggerAsyncRefreshUnlocked index cacheKey tm) = currentIndex tm"
  by (simp_all add: triggerAsyncRefreshUnlocked_def Let_def)



lemma dispense_Token [simp]: "Token (dispense now c) = Token c"
  by (simp add: dispense_def Let_def)

lemma dispense_CachedAt [simp]: "CachedAt (dispense now c) = CachedAt c"
  by (simp add: dispense_def Let_def)


section \<open>Selection: the cursor\<close>






lemma f64_sub_numeral_one [simp]:
  "f64_sub (Finite 10) (Finite 1) = Finite 9"
  by (simp add: f64_sub_def)



section \<open>Selection: disabled credentials\<close>

lemma lazy_refresh_enabled_only:
  assumes "\<forall>cfg. \<not> Disabled cfg \<longrightarrow> rt cfg = rt' cfg"
  shows "lazy_refresh rt cu now k i tm = lazy_refresh rt' cu now k i tm"
  using assms
  by (simp add: lazy_refresh_def refreshSingleTokenSyncUnlock_def network_def Let_def)

lemma selectLoop_enabled_only:
  assumes "\<forall>cfg. \<not> Disabled cfg \<longrightarrow> rt cfg = rt' cfg"
  shows "selectLoop rt cu now n tm = selectLoop rt' cu now n tm"
proof (induction n arbitrary: tm)
  case 0
  show ?case by simp
next
  case (Suc n)
  have ih: "selectLoop rt cu now n = selectLoop rt' cu now n"
    by (rule ext) (rule Suc.IH)
  show ?case
    by (simp only: selectLoop.simps ih lazy_refresh_enabled_only [OF assms])
qed

lemma getBestToken_enabled_only:
  assumes "\<forall>cfg. \<not> Disabled cfg \<longrightarrow> rt cfg = rt' cfg"
  shows "getBestToken rt cu now tm = getBestToken rt' cu now tm"
  by (simp add: getBestToken_def selectBestTokenUnlocked_def
      selectLoop_enabled_only [OF assms, of cu now])

lemma getBestToken_disabled_cursor:
  assumes "currentIndex tm < length (configOrder tm)"
    and "currentIndex tm < length (configs tm)"
    and "Disabled (configs tm ! currentIndex tm)"
  shows "getBestToken rt cu now tm =
      (case tokens tm (configOrder tm ! currentIndex tm) of
         Some cached \<Rightarrow>
           if IsUsable now cached
           then (Inr (Token cached),
                 tm\<lparr>tokens := (tokens tm)(configOrder tm ! currentIndex tm \<mapsto> dispense now cached)\<rparr>)
           else getBestToken_after now
                  (selectLoop rt cu now (length (configOrder tm) - 1)
                     (tm\<lparr>exhausted := insert (configOrder tm ! currentIndex tm) (exhausted tm),
                         currentIndex := (currentIndex tm + 1) mod length (configOrder tm)\<rparr>))
       | None \<Rightarrow>
           getBestToken_after now
             (selectLoop rt cu now (length (configOrder tm) - 1)
                (tm\<lparr>exhausted := insert (configOrder tm ! currentIndex tm) (exhausted tm),
                    currentIndex := (currentIndex tm + 1) mod length (configOrder tm)\<rparr>)))"
proof -
  from assms(1) obtain n where n: "length (configOrder tm) = Suc n"
    by (cases "length (configOrder tm)") simp_all
  show ?thesis
    using assms
    by (simp add: getBestToken_def selectBestTokenUnlocked_def n Let_def lazy_refresh_def
        mark_exhausted_def advance_cursor_def triggerAsyncRefreshUnlocked_def
        getBestToken_after_def split: option.splits)
qed

text \<open>
  C5, as amended. A call never refreshes a disabled credential: what the refresh of a
  disabled credential would answer has no influence on the result or on the state. When
  the cursor is at a disabled credential, the cached entry of the position is consulted
  all the same: if it is usable it is dispensed; otherwise the position is marked
  exhausted, the cursor moves to the next position, nothing else changes, and the call
  goes on from there.
\<close>

theorem disabled_position_never_refreshed:
  "((\<forall>cfg. \<not> Disabled cfg \<longrightarrow> rt cfg = rt' cfg) \<longrightarrow>
      getBestToken rt cu now tm = getBestToken rt' cu now tm)
   \<and> (currentIndex tm < length (configOrder tm) \<and> currentIndex tm < length (configs tm)
       \<and> Disabled (configs tm ! currentIndex tm) \<longrightarrow>
       getBestToken rt cu now tm =
         (case tokens tm (configOrder tm ! currentIndex tm) of
            Some cached \<Rightarrow>
              if IsUsable now cached
              then (Inr (Token cached),
                    tm\<lparr>tokens := (tokens tm)(configOrder tm ! currentIndex tm \<mapsto> dispense now cached)\<rparr>)
              else getBestToken_after now
                     (selectLoop rt cu now (length (configOrder tm) - 1)
                        (tm\<lparr>exhausted := insert (configOrder tm ! currentIndex tm) (exhausted tm),
                            currentIndex := (currentIndex tm + 1) mod length (configOrder tm)\<rparr>))
          | None \<Rightarrow>
              getBestToken_after now
                (selectLoop rt cu now (length (configOrder tm) - 1)
                   (tm\<lparr>exhausted := insert (configOrder tm ! currentIndex tm) (exhausted tm),
                       currentIndex := (currentIndex tm + 1) mod length (configOrder tm)\<rparr>))))"
  using getBestToken_enabled_only [of rt rt' cu now tm]
    getBestToken_disabled_cursor [of tm rt cu now]
  by blast

lemma skip_pool_simps:
  "currentIndex skip_pool = 0" "configOrder skip_pool = [''token_0'', ''token_1'']"
  "configs skip_pool = [credD, credA]" "tokens skip_pool ''token_0'' = None"
  "tokens skip_pool ''token_1'' = Some (entry accessA 10)" "ttl skip_pool = 300"
  "exhausted skip_pool = {}" "refreshing skip_pool = {}" "launched skip_pool = []"
  by (simp_all add: skip_pool_def NewTokenManager_def gco2)

lemma disabled_pool_simps:
  "currentIndex disabled_pool = 0" "configOrder disabled_pool = [''token_0'']"
  "configs disabled_pool = [credD]" "tokens disabled_pool ''token_0'' = Some (entry accessA 10)"
  by (simp_all add: disabled_pool_def NewTokenManager_def gco1)

text \<open>
  The amended C5 at three pools: \<open>cold_skip_pool\<close> for the refresh that is never made;
  \<open>skip_pool\<close>, where the disabled position 0 is marked exhausted and passed and the
  token of position 1 is returned; \<open>disabled_pool\<close>, where the usable cached entry of the
  disabled position is dispensed.
\<close>

theorem disabled_position_never_refreshed_witness:
  "refresh_gives_A credD \<noteq> refresh_enabled_gives_A credD
   \<and> getBestToken refresh_gives_A quota_gives_5 10 cold_skip_pool
       = getBestToken refresh_enabled_gives_A quota_gives_5 10 cold_skip_pool
   \<and> currentIndex skip_pool < length (configOrder skip_pool)
   \<and> currentIndex skip_pool < length (configs skip_pool)
   \<and> Disabled (configs skip_pool ! currentIndex skip_pool)
   \<and> fst (getBestToken refresh_gives_A quota_gives_5 10 skip_pool) = Inr accessA
   \<and> exhausted (snd (getBestToken refresh_gives_A quota_gives_5 10 skip_pool)) = {''token_0''}
   \<and> currentIndex (snd (getBestToken refresh_gives_A quota_gives_5 10 skip_pool)) = 1
   \<and> tokens (snd (getBestToken refresh_gives_A quota_gives_5 10 skip_pool)) ''token_0'' = None
   \<and> refreshing (snd (getBestToken refresh_gives_A quota_gives_5 10 skip_pool)) = {}
   \<and> launched (snd (getBestToken refresh_gives_A quota_gives_5 10 skip_pool)) = []
   \<and> currentIndex disabled_pool < length (configOrder disabled_pool)
   \<and> currentIndex disabled_pool < length (configs disabled_pool)
   \<and> Disabled (configs disabled_pool ! currentIndex disabled_pool)
   \<and> fst (getBestToken refresh_gives_A quota_gives_5 10 disabled_pool) = Inr accessA
   \<and> refreshing (snd (getBestToken refresh_gives_A quota_gives_5 10 disabled_pool)) = {}
   \<and> launched (snd (getBestToken refresh_gives_A quota_gives_5 10 disabled_pool)) = []"
proof -
  have h0: "\<forall>cfg. \<not> Disabled cfg \<longrightarrow> refresh_gives_A cfg = refresh_enabled_gives_A cfg"
    by (simp add: refresh_gives_A_def refresh_enabled_gives_A_def)
  have h1: "currentIndex skip_pool < length (configOrder skip_pool)
     \<and> currentIndex skip_pool < length (configs skip_pool)
     \<and> Disabled (configs skip_pool ! currentIndex skip_pool)"
    by (simp add: skip_pool_simps credD_def)
  have h2: "currentIndex disabled_pool < length (configOrder disabled_pool)
     \<and> currentIndex disabled_pool < length (configs disabled_pool)
     \<and> Disabled (configs disabled_pool ! currentIndex disabled_pool)"
    by (simp add: disabled_pool_simps credD_def)
  from disabled_position_never_refreshed
         [of refresh_gives_A refresh_enabled_gives_A quota_gives_5 10 cold_skip_pool] h0
  have w0: "getBestToken refresh_gives_A quota_gives_5 10 cold_skip_pool
       = getBestToken refresh_enabled_gives_A quota_gives_5 10 cold_skip_pool"
    by blast
  from disabled_position_never_refreshed
         [of refresh_gives_A refresh_gives_A quota_gives_5 10 skip_pool] h1
  have w1: "getBestToken refresh_gives_A quota_gives_5 10 skip_pool =
      getBestToken_after 10
        (selectLoop refresh_gives_A quota_gives_5 10 (length (configOrder skip_pool) - 1)
           (skip_pool\<lparr>exhausted := insert (configOrder skip_pool ! currentIndex skip_pool)
                                      (exhausted skip_pool),
                      currentIndex := (currentIndex skip_pool + 1) mod length (configOrder skip_pool)\<rparr>))"
    by (simp add: skip_pool_simps)
  from disabled_position_never_refreshed
         [of refresh_gives_A refresh_gives_A quota_gives_5 10 disabled_pool] h2
  have w2: "getBestToken refresh_gives_A quota_gives_5 10 disabled_pool =
      (Inr (Token (entry accessA 10)),
       disabled_pool\<lparr>tokens := (tokens disabled_pool)
          (configOrder disabled_pool ! currentIndex disabled_pool \<mapsto> dispense 10 (entry accessA 10))\<rparr>)"
    by (simp add: disabled_pool_simps IsUsable_def entry_def accessA_def)
  have e1: "fst (getBestToken refresh_gives_A quota_gives_5 10 skip_pool) = Inr accessA
   \<and> exhausted (snd (getBestToken refresh_gives_A quota_gives_5 10 skip_pool)) = {''token_0''}
   \<and> currentIndex (snd (getBestToken refresh_gives_A quota_gives_5 10 skip_pool)) = 1
   \<and> tokens (snd (getBestToken refresh_gives_A quota_gives_5 10 skip_pool)) ''token_0'' = None
   \<and> refreshing (snd (getBestToken refresh_gives_A quota_gives_5 10 skip_pool)) = {}
   \<and> launched (snd (getBestToken refresh_gives_A quota_gives_5 10 skip_pool)) = []"
    unfolding w1
    by (simp add: skip_pool_simps getBestToken_after_def entry_def IsUsable_def accessA_def Let_def)
  have e2: "fst (getBestToken refresh_gives_A quota_gives_5 10 disabled_pool) = Inr accessA
   \<and> refreshing (snd (getBestToken refresh_gives_A quota_gives_5 10 disabled_pool)) = {}
   \<and> launched (snd (getBestToken refresh_gives_A quota_gives_5 10 disabled_pool)) = []"
    unfolding w2 by (simp add: entry_def disabled_pool_def NewTokenManager_def)
  have d: "refresh_gives_A credD \<noteq> refresh_enabled_gives_A credD"
    by (simp add: refresh_gives_A_def refresh_enabled_gives_A_def credD_def)
  from d w0 h1 e1 h2 e2 show ?thesis by blast
qed

text \<open>
  C5 as stated fails: the only credential of \<open>disabled_pool\<close> is disabled, and its cached
  token is dispensed all the same.
\<close>

theorem disabled_with_cache_counterexample:
  "Disabled (configs disabled_pool ! 0)
   \<and> fst (selectBestTokenUnlocked refresh_fails quota_fails 10 disabled_pool)
       = Inr (Some (TokenCacheKeyFormat 0))
   \<and> fst (getBestToken refresh_fails quota_fails 10 disabled_pool) = Inr accessA
   \<and> map_option Available
       (tokens (snd (getBestToken refresh_fails quota_fails 10 disabled_pool)) (TokenCacheKeyFormat 0))
       = Some (Finite 9)"
  by (simp add: getBestToken_def getBestToken_after_def selectBestTokenUnlocked_def
      disabled_pool_def NewTokenManager_def
      gco1 entry_def IsUsable_def accessA_def credD_def dispense_def Let_def)

section \<open>Dispensing\<close>

text \<open>The decrement is made exactly when the count is above zero.\<close>

lemma dispense_Available:
  "Available (dispense now c) =
     (if f64_less (Finite 0) (Available c) then f64_sub (Available c) (Finite 1) else Available c)"
  by (simp add: dispense_def Let_def)

text \<open>
  C4. The claim is that dispensing leaves remaining-available at the previous value minus
  one, floored at zero, and never below zero. On a cold pool of one credential whose
  quota check reports 3 allowed and 2.5 used, a single call refreshes the credential,
  finds it usable with half a unit, returns its token, and leaves remaining-available at
  minus one half.
\<close>

theorem dispense_fraction_goes_negative:
  "CalculateAvailableCount usage_half = Finite (1 / 2)
   \<and> fst (getBestToken refresh_gives_A quota_gives_half 10 (NewTokenManager 300 [credA]))
       = Inr accessA
   \<and> map_option Available
       (tokens (snd (getBestToken refresh_gives_A quota_gives_half 10
                       (NewTokenManager 300 [credA]))) (TokenCacheKeyFormat 0))
       = Some (Finite (- (1 / 2)))
   \<and> f64_less (Finite (- (1 / 2))) (Finite 0)"
proof -
  have "round64 (3 - 5 / 2) = Finite (1 / 2)" by simp
  then have u: "CalculateAvailableCount usage_half = Finite (1 / 2)"
    by (simp add: CalculateAvailableCount_def usage_half_def credit_def f64_sub_def)
  have d: "f64_sub (Finite (1 / 2)) (Finite 1) = Finite (- (1 / 2))"
    by (simp add: f64_sub_def)
  show ?thesis
    by (simp add: u d getBestToken_def getBestToken_after_def selectBestTokenUnlocked_def
        NewTokenManager_def gco1
        lazy_refresh_def refreshSingleTokenSyncUnlock_def refreshSingleTokenSyncUnlock_relocked_def
        network_def IsUsable_def accessA_def credA_def dispense_def Let_def
        refresh_gives_A_def quota_gives_half_def)
qed

section \<open>Quota check failure\<close>

text \<open>
  When the refresh succeeds and the quota check fails, the entry written by the
  background refresh has remaining-available zero, and the entry written (and returned)
  by the synchronous refresh has remaining-available one, whatever the pool, the
  position, the token and the time.
\<close>

lemma quota_check_failed_values:
  assumes "refreshSingleToken cfg = Some token" and "CheckUsageLimits token = None"
  shows "refreshSingleTokenAsync_validate index cfg tm \<Longrightarrow>
            map_option Available
              (tokens (refreshSingleTokenAsync refreshSingleToken CheckUsageLimits now index cfg tm)
                 (TokenCacheKeyFormat index)) = Some (Finite 0)"
    and "map_option Available
              (fst (refreshSingleTokenSyncUnlock refreshSingleToken CheckUsageLimits now cfg cacheKey tm))
              = Some (Finite 1)"
    and "map_option Available
              (tokens (snd (refreshSingleTokenSyncUnlock refreshSingleToken CheckUsageLimits now cfg cacheKey tm))
                 cacheKey) = Some (Finite 1)"
  using assms
  by (simp_all add: refreshSingleTokenAsync_def refreshSingleTokenAsync_store_def
      refreshSingleTokenAsync_deferred_def refreshSingleTokenSyncUnlock_def
      refreshSingleTokenSyncUnlock_relocked_def network_def Let_def)

text \<open>
  C7. The claim is that a failed quota check after a successful refresh sets
  remaining-available to one documented fallback value, the same on every path. A
  credential added to an empty pool and refreshed in the background, the quota check
  failing, is cached with remaining-available zero, and the next call finds no token;
  the same credential in a cold pool, refreshed by the selection with the quota check
  failing, is cached with remaining-available one, and the call returns its token.
\<close>

theorem quota_check_failed_fallback_differs:
  "launched (AddConfig credA (NewTokenManager 300 [])) = [(0, credA)]
   \<and> refreshSingleTokenAsync_validate 0 credA (AddConfig credA (NewTokenManager 300 []))
   \<and> map_option Available
       (tokens (refreshSingleTokenAsync refresh_gives_A quota_fails 7 0 credA
                  (AddConfig credA (NewTokenManager 300 []))) (TokenCacheKeyFormat 0))
       = Some (Finite 0)
   \<and> fst (getBestToken refresh_gives_A quota_fails 8
            (refreshSingleTokenAsync refresh_gives_A quota_fails 7 0 credA
               (AddConfig credA (NewTokenManager 300 [])))) = Inl NoTokenAvailable
   \<and> map_option Available
       (tokens (snd (refreshSingleTokenSyncUnlock refresh_gives_A quota_fails 7 credA
                       (TokenCacheKeyFormat 0) (NewTokenManager 300 [credA])))
          (TokenCacheKeyFormat 0))
       = Some (Finite 1)
   \<and> fst (getBestToken refresh_gives_A quota_fails 8 (NewTokenManager 300 [credA])) = Inr accessA
   \<and> Finite 0 \<noteq> Finite 1"
  by (simp add: AddConfig_def NewTokenManager_def generateConfigOrder_def refreshSingleTokenAsync_def
      refreshSingleTokenAsync_validate_def refreshSingleTokenAsync_store_def
      refreshSingleTokenAsync_deferred_def refreshSingleTokenSyncUnlock_def
      refreshSingleTokenSyncUnlock_relocked_def network_def refresh_gives_A_def quota_fails_def
      getBestToken_def getBestToken_after_def selectBestTokenUnlocked_def lazy_refresh_def
      mark_exhausted_def advance_cursor_def IsUsable_def accessA_def credA_def dispense_def
      Let_def)

section \<open>Removal\<close>

lemma RemoveConfig_loop_order:
  "fst (snd (RemoveConfig_loop index T E is (C, O', X))) = O' @ map (\<lambda>i. TokenCacheKeyFormat (int i)) is"
  by (induction "is" arbitrary: C O' X) (simp_all add: Let_def)

lemma RemoveConfig_loop_cache_other:
  "s \<notin> (\<lambda>i. TokenCacheKeyFormat (int i)) ` set is \<Longrightarrow>
     fst (RemoveConfig_loop index T E is (C, O', X)) s = C s"
  by (induction "is" arbitrary: C O' X) (auto simp: Let_def split: option.splits)

lemma RemoveConfig_loop_cache_at:
  "j \<in> set is \<Longrightarrow>
     fst (RemoveConfig_loop index T E is (C, O', X)) (TokenCacheKeyFormat (int j)) =
       (case T (old_key index j) of Some c \<Rightarrow> Some c | None \<Rightarrow> C (TokenCacheKeyFormat (int j)))"
proof (induction "is" arbitrary: C O' X)
  case Nil
  then show ?case by simp
next
  case (Cons i rest)
  show ?case
  proof (cases "j \<in> set rest")
    case True
    show ?thesis
      using Cons.IH [OF True]
      by (auto simp: Let_def old_key_def split: option.splits)
  next
    case False
    with Cons.prems have ji: "j = i" by simp
    from False have "TokenCacheKeyFormat (int j) \<notin> (\<lambda>i. TokenCacheKeyFormat (int i)) ` set rest"
      by auto
    then show ?thesis
      using ji by (simp add: Let_def old_key_def RemoveConfig_loop_cache_other split: option.splits)
  qed
qed

lemma RemoveConfig_loop_exhausted:
  "snd (snd (RemoveConfig_loop index T E is (C, O', X))) =
     X \<union> {TokenCacheKeyFormat (int i) | i. i \<in> set is \<and> old_key index i \<in> E}"
  by (induction "is" arbitrary: C O' X) (auto simp: Let_def old_key_def)

lemma old_key_tokens:
  assumes "index = int k"
  shows "((tokens tm)(TokenCacheKeyFormat index := None)) (old_key index i) =
           (if i < k then tokens tm (TokenCacheKeyFormat (int i))
            else tokens tm (TokenCacheKeyFormat (int i + 1)))"
  using assms by (auto simp: old_key_def TokenCacheKeyFormat_neq_shift)

lemma old_key_exhausted:
  assumes "index = int k"
  shows "old_key index i \<in> exhausted tm - {TokenCacheKeyFormat index} \<longleftrightarrow>
           (if i < k then TokenCacheKeyFormat (int i) \<in> exhausted tm
            else TokenCacheKeyFormat (int i + 1) \<in> exhausted tm)"
  using assms by (auto simp: old_key_def TokenCacheKeyFormat_neq_shift)

lemma RemoveConfig_success:
  assumes "0 \<le> index" "index < int (length (configs tm))"
  shows "RemoveConfig index tm =
     (None,
      tm\<lparr>configs := take (nat index) (configs tm) @ drop (nat index + 1) (configs tm),
         tokens := fst (RemoveConfig_result index tm),
         configOrder := fst (snd (RemoveConfig_result index tm)),
         exhausted := snd (snd (RemoveConfig_result index tm)),
         currentIndex := (if currentIndex tm \<ge> length (configs tm) - 1 then 0 else currentIndex tm)\<rparr>)"
proof -
  from assms have len: "length (take (nat index) (configs tm) @ drop (Suc (nat index)) (configs tm))
      = length (configs tm) - 1"
    by (simp add: min_def)
  show ?thesis
    using assms
    by (simp add: RemoveConfig_def Let_def case_prod_beta RemoveConfig_result_def len
        del: length_append length_take length_drop)
qed

lemma RemoveConfig_failure:
  "index < 0 \<or> index \<ge> int (length (configs tm)) \<Longrightarrow>
     RemoveConfig index tm = (Some (InvalidIndex index), tm)"
  by (simp add: RemoveConfig_def)

lemma RemoveConfig_result_tokens:
  assumes "0 \<le> index"
  shows "fst (RemoveConfig_result index tm) (TokenCacheKeyFormat (int i)) =
           (if i < nat index then
              (if i < length (configs tm) - 1 then tokens tm (TokenCacheKeyFormat (int i)) else None)
            else if i < length (configs tm) - 1 then tokens tm (TokenCacheKeyFormat (int i + 1))
            else None)"
proof (cases "i < length (configs tm) - 1")
  case True
  then have mem: "i \<in> set [0..<length (configs tm) - 1]" by simp
  from assms have idx: "index = int (nat index)" by simp
  show ?thesis
    unfolding RemoveConfig_result_def RemoveConfig_loop_cache_at [OF mem]
      old_key_tokens [OF idx]
    using True by (simp split: option.splits)
next
  case False
  then have "TokenCacheKeyFormat (int i) \<notin>
      (\<lambda>i. TokenCacheKeyFormat (int i)) ` set [0..<length (configs tm) - 1]"
    by auto
  then show ?thesis
    unfolding RemoveConfig_result_def using False
    by (simp add: RemoveConfig_loop_cache_other)
qed

lemma RemoveConfig_result_tokens_other:
  assumes "s \<notin> (\<lambda>i. TokenCacheKeyFormat (int i)) ` {..<length (configs tm) - 1}"
  shows "fst (RemoveConfig_result index tm) s = None"
proof -
  have "{..<length (configs tm) - 1} = set [0..<length (configs tm) - 1]" by auto
  with assms show ?thesis
    unfolding RemoveConfig_result_def by (simp add: RemoveConfig_loop_cache_other)
qed

lemma RemoveConfig_result_order:
  "fst (snd (RemoveConfig_result index tm)) =
     map (\<lambda>i. TokenCacheKeyFormat (int i)) [0..<length (configs tm) - 1]"
  unfolding RemoveConfig_result_def by (simp add: RemoveConfig_loop_order)

lemma RemoveConfig_result_exhausted:
  assumes "0 \<le> index"
  shows "TokenCacheKeyFormat (int i) \<in> snd (snd (RemoveConfig_result index tm)) \<longleftrightarrow>
           i < length (configs tm) - 1 \<and>
           (if i < nat index then TokenCacheKeyFormat (int i) \<in> exhausted tm
            else TokenCacheKeyFormat (int i + 1) \<in> exhausted tm)"
proof -
  from assms have idx: "index = int (nat index)" by simp
  show ?thesis
    unfolding RemoveConfig_result_def RemoveConfig_loop_exhausted
    using old_key_exhausted [OF idx, of i tm] by auto
qed

lemma RemoveConfig_result_exhausted_other:
  assumes "s \<notin> (\<lambda>i. TokenCacheKeyFormat (int i)) ` {..<length (configs tm) - 1}"
  shows "s \<notin> snd (snd (RemoveConfig_result index tm))"
  using assms unfolding RemoveConfig_result_def RemoveConfig_loop_exhausted by auto

text \<open>
  C3, as amended. \<open>RemoveConfig\<close> fails exactly when the index is outside
  \<open>[0, len(list))\<close>, and then changes nothing. On success it removes the record at the
  index; the cache and the exhaustion marks are rebuilt so that a position below the index
  keeps its entry and mark, a position at or above it takes over those of the position one
  higher, content unchanged, and no other key has an entry or a mark (so the removed
  credential's entry and mark are gone); the order is regenerated; the cursor is reset to
  zero if it points past the end of the shortened list. The in-flight markers and the
  running refreshes are left exactly as they were.
\<close>

theorem RemoveConfig_contract:
  "(fst (RemoveConfig index tm) = None) = (0 \<le> index \<and> index < int (length (configs tm)))
   \<and> (\<not> (0 \<le> index \<and> index < int (length (configs tm))) \<longrightarrow> snd (RemoveConfig index tm) = tm)
   \<and> (0 \<le> index \<and> index < int (length (configs tm)) \<longrightarrow>
        configs (snd (RemoveConfig index tm))
          = take (nat index) (configs tm) @ drop (nat index + 1) (configs tm)
      \<and> length (configs (snd (RemoveConfig index tm))) = length (configs tm) - 1
      \<and> configOrder (snd (RemoveConfig index tm))
          = generateConfigOrder (configs (snd (RemoveConfig index tm)))
      \<and> (\<forall>i. tokens (snd (RemoveConfig index tm)) (TokenCacheKeyFormat (int i)) =
               (if length (configs tm) - 1 \<le> i then None
                else if i < nat index then tokens tm (TokenCacheKeyFormat (int i))
                else tokens tm (TokenCacheKeyFormat (int i + 1))))
      \<and> (\<forall>s. s \<notin> range (\<lambda>i. TokenCacheKeyFormat (int i)) \<longrightarrow>
               tokens (snd (RemoveConfig index tm)) s = None
               \<and> s \<notin> exhausted (snd (RemoveConfig index tm)))
      \<and> (\<forall>i. TokenCacheKeyFormat (int i) \<in> exhausted (snd (RemoveConfig index tm)) \<longleftrightarrow>
               i < length (configs tm) - 1
               \<and> (if i < nat index then TokenCacheKeyFormat (int i) \<in> exhausted tm
                  else TokenCacheKeyFormat (int i + 1) \<in> exhausted tm))
      \<and> refreshing (snd (RemoveConfig index tm)) = refreshing tm
      \<and> launched (snd (RemoveConfig index tm)) = launched tm
      \<and> currentIndex (snd (RemoveConfig index tm))
          = (if length (configs tm) - 1 \<le> currentIndex tm then 0 else currentIndex tm))"
proof (cases "0 \<le> index \<and> index < int (length (configs tm))")
  case False
  then have "RemoveConfig index tm = (Some (InvalidIndex index), tm)"
    by (intro RemoveConfig_failure) auto
  then have "fst (RemoveConfig index tm) \<noteq> None" "snd (RemoveConfig index tm) = tm"
    by simp_all
  with False show ?thesis by blast
next
  case True
  then have nonneg: "0 \<le> index" and lt: "index < int (length (configs tm))" by simp_all
  note eq = RemoveConfig_success [OF nonneg lt]
  have len: "length (take (nat index) (configs tm) @ drop (nat index + 1) (configs tm))
      = length (configs tm) - 1"
    using nonneg lt by (simp add: min_def)
  have toks: "tokens (snd (RemoveConfig index tm)) (TokenCacheKeyFormat (int i)) =
               (if length (configs tm) - 1 \<le> i then None
                else if i < nat index then tokens tm (TokenCacheKeyFormat (int i))
                else tokens tm (TokenCacheKeyFormat (int i + 1)))" for i
    unfolding eq by (simp add: RemoveConfig_result_tokens [OF nonneg])
  have other: "tokens (snd (RemoveConfig index tm)) s = None
               \<and> s \<notin> exhausted (snd (RemoveConfig index tm))"
    if "s \<notin> range (\<lambda>i. TokenCacheKeyFormat (int i))" for s
  proof -
    from that have "s \<notin> (\<lambda>i. TokenCacheKeyFormat (int i)) ` {..<length (configs tm) - 1}"
      by auto
    then show ?thesis
      unfolding eq
      by (simp add: RemoveConfig_result_tokens_other RemoveConfig_result_exhausted_other)
  qed
  have exh: "TokenCacheKeyFormat (int i) \<in> exhausted (snd (RemoveConfig index tm)) \<longleftrightarrow>
               i < length (configs tm) - 1
               \<and> (if i < nat index then TokenCacheKeyFormat (int i) \<in> exhausted tm
                  else TokenCacheKeyFormat (int i + 1) \<in> exhausted tm)" for i
    unfolding eq using RemoveConfig_result_exhausted [OF nonneg, of i tm] by simp
  have order: "configOrder (snd (RemoveConfig index tm))
          = generateConfigOrder (configs (snd (RemoveConfig index tm)))"
    unfolding eq generateConfigOrder_def
    using len by (simp add: RemoveConfig_result_order del: length_append length_take length_drop)
  have rest: "fst (RemoveConfig index tm) = None"
    "configs (snd (RemoveConfig index tm))
          = take (nat index) (configs tm) @ drop (nat index + 1) (configs tm)"
    "refreshing (snd (RemoveConfig index tm)) = refreshing tm"
    "launched (snd (RemoveConfig index tm)) = launched tm"
    "currentIndex (snd (RemoveConfig index tm))
          = (if length (configs tm) - 1 \<le> currentIndex tm then 0 else currentIndex tm)"
    unfolding eq by simp_all
  have len': "length (configs (snd (RemoveConfig index tm))) = length (configs tm) - 1"
    unfolding rest(2) by (rule len)
  from True toks other exh order rest len' show ?thesis by blast
qed

text \<open>
  The amended C3 on the scenario of the specification: position 1 removed from
  \<open>pool3\<close>; the entry of former position 2 is at position 1, position 2 has none.
\<close>

theorem RemoveConfig_contract_witness:
  "0 \<le> (1::int) \<and> 1 < int (length (configs pool3))
   \<and> fst (RemoveConfig 1 pool3) = None
   \<and> length (configs (snd (RemoveConfig 1 pool3))) = 2
   \<and> tokens (snd (RemoveConfig 1 pool3)) ''token_0'' = Some (entry accessA 3)
   \<and> tokens (snd (RemoveConfig 1 pool3)) ''token_1'' = Some (entry accessB 5)
   \<and> tokens (snd (RemoveConfig 1 pool3)) ''token_2'' = None
   \<and> currentIndex (snd (RemoveConfig 1 pool3)) = 0"
proof -
  have h: "0 \<le> (1::int) \<and> 1 < int (length (configs pool3))"
    by (simp add: pool3_def NewTokenManager_def)
  note t = RemoveConfig_contract [of 1 pool3]
  from t h have ok: "fst (RemoveConfig 1 pool3) = None" by blast
  from t h have len: "length (configs (snd (RemoveConfig 1 pool3))) = length (configs pool3) - 1"
    by blast
  from t h have toks: "tokens (snd (RemoveConfig 1 pool3)) (TokenCacheKeyFormat (int i)) =
               (if length (configs pool3) - 1 \<le> i then None
                else if i < nat 1 then tokens pool3 (TokenCacheKeyFormat (int i))
                else tokens pool3 (TokenCacheKeyFormat (int i + 1)))" for i
    by blast
  from t h have cur: "currentIndex (snd (RemoveConfig 1 pool3))
          = (if length (configs pool3) - 1 \<le> currentIndex pool3 then 0 else currentIndex pool3)"
    by blast
  have p: "length (configs pool3) = 3" "currentIndex pool3 = 2"
    "tokens pool3 ''token_0'' = Some (entry accessA 3)"
    "tokens pool3 ''token_2'' = Some (entry accessB 5)"
    by (simp_all add: pool3_def NewTokenManager_def)
  from toks [of 0] toks [of 1] toks [of 2] p h ok len cur show ?thesis by simp
qed

text \<open>
  C3 as stated fails: in \<open>marked_pool\<close> a refresh of position 0 is in flight; after
  position 0 is removed its marker is still set, now over the credential that moved there.
\<close>

theorem RemoveConfig_marker_counterexample:
  "launched marked_pool = [(0, credA)]
   \<and> TokenCacheKeyFormat 0 \<in> refreshing marked_pool
   \<and> fst (RemoveConfig 0 marked_pool) = None
   \<and> configs (snd (RemoveConfig 0 marked_pool)) = [credB]
   \<and> TokenCacheKeyFormat 0 \<in> refreshing (snd (RemoveConfig 0 marked_pool))"
  by (simp add: marked_pool_def triggerAsyncRefreshUnlocked_def NewTokenManager_def credA_def
      RemoveConfig_def Let_def case_prod_beta)

section \<open>Refresh coordination\<close>

text \<open>
  What the selection and the refreshes themselves do with the marker: a background refresh
  started by the selection has its marker set; a position whose marker is set is passed
  over without a refresh; a refresh that runs to its end leaves the marker of its key
  cleared, whatever the outcome of the network calls.
\<close>

lemma triggerAsyncRefreshUnlocked_sets_marker:
  "launched (triggerAsyncRefreshUnlocked index cacheKey tm) \<noteq> launched tm \<Longrightarrow>
     cacheKey \<in> refreshing (triggerAsyncRefreshUnlocked index cacheKey tm)"
  by (auto simp: triggerAsyncRefreshUnlocked_def Let_def split: if_splits)

lemma lazy_refresh_marker:
  "currentKey \<in> refreshing tm \<Longrightarrow>
     lazy_refresh rt cu now currentKey currentIdx tm =
       (if currentIdx < length (configs tm) \<and> \<not> Disabled (configs tm ! currentIdx)
        then advance_cursor tm
        else mark_exhausted currentKey tm)"
  by (simp add: lazy_refresh_def Let_def)

lemma refreshSingleTokenAsync_clears_marker:
  "TokenCacheKeyFormat index \<notin> refreshing (refreshSingleTokenAsync rt cu now index cfg tm)"
  by (simp add: refreshSingleTokenAsync_def refreshSingleTokenAsync_deferred_def
      refreshSingleTokenAsync_store_def Let_def split: option.splits)

lemma refreshSingleTokenSyncUnlock_clears_marker:
  "cacheKey \<notin> refreshing (snd (refreshSingleTokenSyncUnlock rt cu now cfg cacheKey tm))"
  by (simp add: refreshSingleTokenSyncUnlock_def refreshSingleTokenSyncUnlock_relocked_def
      Let_def split: option.splits)

text \<open>
  C6. The claim is that every refresh is launched only after its in-flight marker was
  checked and set, so that at most one refresh per position is outstanding and the marker
  stays for the whole refresh. The manual refresh launches without reading or setting the
  marker: called twice for position 0 it leaves two refreshes of that position running and
  no marker; called while a refresh started by the selection is in flight it starts a
  second one, and the first of the two to finish clears the marker while the other is
  still running.
\<close>

theorem manual_refresh_ignores_marker:
  "fst (RefreshSingleTokenByIndex 0 (NewTokenManager 300 [credA])) = None
   \<and> fst (RefreshSingleTokenByIndex 0 (snd (RefreshSingleTokenByIndex 0 (NewTokenManager 300 [credA]))))
       = None
   \<and> launched refreshed_twice = [(0, credA), (0, credA)]
   \<and> TokenCacheKeyFormat 0 \<notin> refreshing refreshed_twice
   \<and> TokenCacheKeyFormat 0 \<in> refreshing marked_pool
   \<and> fst (RefreshSingleTokenByIndex 0 marked_pool) = None
   \<and> launched marked_then_manual = [(0, credA), (0, credA)]
   \<and> launched (refreshSingleTokenAsync refresh_fails quota_fails 5 0 credA marked_then_manual)
       = [(0, credA)]
   \<and> TokenCacheKeyFormat 0
       \<notin> refreshing (refreshSingleTokenAsync refresh_fails quota_fails 5 0 credA marked_then_manual)"
  by (simp add: refreshed_twice_def marked_then_manual_def marked_pool_def
      RefreshSingleTokenByIndex_def triggerAsyncRefreshUnlocked_def NewTokenManager_def
      refreshSingleTokenAsync_def refreshSingleTokenAsync_validate_def
      refreshSingleTokenAsync_store_def refreshSingleTokenAsync_deferred_def network_def
      refresh_fails_def credA_def credB_def Let_def)

section \<open>Refresh completion after a removal\<close>

lemma two_pool_eq:
  "two_pool = \<lparr>tokens = Map.empty, ttl = 300, configs = [credA, credB],
      configOrder = [''token_0'', ''token_1''], currentIndex = 0,
      exhausted = {}, refreshing = {}, launched = [(0, credA), (1, credB)]\<rparr>"
  by (simp add: two_pool_def AddConfig_def NewTokenManager_def generateConfigOrder_def Let_def
      credA_def credB_def)

lemma RemoveConfig_0_two:
  "configs tm = [a, b] \<Longrightarrow> tokens tm = Map.empty \<Longrightarrow> exhausted tm = {} \<Longrightarrow>
     RemoveConfig 0 tm =
       (None, tm\<lparr>configs := [b], tokens := Map.empty, configOrder := [''token_0''],
                 exhausted := {},
                 currentIndex := (if 1 \<le> currentIndex tm then 0 else currentIndex tm)\<rparr>)"
  by (simp add: RemoveConfig_def Let_def case_prod_beta)

text \<open>
  C1. The claim is that a refresh started for position 0 with credential A is discarded
  when position 0 holds another credential at its completion. The background refresh
  compares the refresh tokens before its network calls only: validated on
  \<open>two_pool\<close>, then position 0 removed, its result is stored under position 0, which is
  credential B by then, and the next call of the selection hands out A's token for it. The
  synchronous refresh does not compare at all: position 0 removed while the lock is
  released, it stores A's token under position 0 as well.
\<close>

theorem refresh_result_lands_on_other_credential:
  "launched two_pool = [(0, credA), (1, credB)]
   \<and> refreshSingleTokenAsync_validate 0 credA two_pool
   \<and> fst (RemoveConfig 0 two_pool) = None
   \<and> configs (snd (RemoveConfig 0 two_pool)) = [credB]
   \<and> map_option Token
        (tokens (refreshSingleTokenAsync_deferred 0 credA
                   (refreshSingleTokenAsync_store (Some (accessA, Some usage5)) 7 0
                      (snd (RemoveConfig 0 two_pool))))
           (TokenCacheKeyFormat 0)) = Some accessA
   \<and> fst (getBestToken refresh_fails quota_fails 8
            (refreshSingleTokenAsync_deferred 0 credA
               (refreshSingleTokenAsync_store (Some (accessA, Some usage5)) 7 0
                  (snd (RemoveConfig 0 two_pool))))) = Inr accessA
   \<and> fst (RemoveConfig 0 sync_started) = None
   \<and> configs (snd (RemoveConfig 0 sync_started)) = [credB]
   \<and> map_option Token
        (tokens (snd (refreshSingleTokenSyncUnlock_relocked (Some (accessA, Some usage5)) 7
                        (TokenCacheKeyFormat 0) (snd (RemoveConfig 0 sync_started))))
           (TokenCacheKeyFormat 0)) = Some accessA"
proof -
  have r1: "RemoveConfig 0 two_pool =
      (None, two_pool\<lparr>configs := [credB], tokens := Map.empty, configOrder := [''token_0''],
                 exhausted := {}, currentIndex := 0\<rparr>)"
    using RemoveConfig_0_two [of two_pool credA credB] by (simp add: two_pool_eq)
  have r2: "RemoveConfig 0 sync_started =
      (None, sync_started\<lparr>configs := [credB], tokens := Map.empty, configOrder := [''token_0''],
                 exhausted := {}, currentIndex := 0\<rparr>)"
    using RemoveConfig_0_two [of sync_started credA credB]
    by (simp add: sync_started_def NewTokenManager_def)
  have u5: "CalculateAvailableCount usage5 = Finite 5"
    by (simp add: CalculateAvailableCount_def usage5_def credit_def f64_sub_def)
  show ?thesis
    unfolding r1 r2
    by (simp add: two_pool_eq refreshSingleTokenAsync_validate_def
        refreshSingleTokenAsync_deferred_def refreshSingleTokenAsync_store_def
        refreshSingleTokenSyncUnlock_relocked_def u5 getBestToken_def getBestToken_after_def
        selectBestTokenUnlocked_def IsUsable_def accessA_def Let_def)
qed

section \<open>The facade: rollback\<close>






text \<open>The two lists stay equal through every add and remove, whatever their outcome.\<close>

lemma facade_alignment_preserved:
  assumes "configs (tokenManager as) = service_configs as"
  shows "configs (tokenManager (snd (AuthService_AddConfig SaveConfigs TokenCacheTTL config as)))
           = service_configs (snd (AuthService_AddConfig SaveConfigs TokenCacheTTL config as))"
    and "configs (tokenManager (snd (AuthService_RemoveConfig SaveConfigs TokenCacheTTL index as)))
           = service_configs (snd (AuthService_RemoveConfig SaveConfigs TokenCacheTTL index as))"
  using assms
  by (auto simp: AuthService_AddConfig_def AuthService_RemoveConfig_def AddConfig_def
      NewTokenManager_def RemoveConfig_def Let_def case_prod_beta
      split: option.splits if_splits prod.splits)

section \<open>The configuration document\<close>

text \<open>
  C10. \<open>parseJSONConfig\<close> returns the array when the document parses as an array of
  records; otherwise, when it parses as a single record, the one-element list of that
  record; it returns an error exactly when it parses as neither.
\<close>

theorem parseJSONConfig_accepts:
  "parseJSONConfig unmarshal_array unmarshal_object jsonData =
     (case unmarshal_array jsonData of
        Some cfgs \<Rightarrow> Inr cfgs
      | None \<Rightarrow> (case unmarshal_object jsonData of
                   Some single \<Rightarrow> Inr [single]
                 | None \<Rightarrow> Inl JSONFormatInvalid))
   \<and> (isl (parseJSONConfig unmarshal_array unmarshal_object jsonData)
        = (unmarshal_array jsonData = None \<and> unmarshal_object jsonData = None))"
  by (simp add: parseJSONConfig_def split: option.splits)

end
